theory Spec2Isabelle
  imports Complex_Main "HOL-Library.Word"
begin

unbundle bit_operations_syntax

section \<open>Kani TTS WebSocket server: a shallow embedding of websocket_server.py\<close>

text \<open>
  The development follows \<^verbatim>\<open>src/websocket_server.py\<close>. Audio samples are finite
  floating-point numbers, modelled as the reals they denote; the product of line 211 is
  rounded to the float type of the array (\<open>float_round\<close>). A raised exception is the left
  summand of a sum type and carries \<^verbatim>\<open>str(e)\<close>; where the code can meet an exception
  that is not of class \<^verbatim>\<open>Exception\<close> the two kinds are told apart (\<open>raised\<close>). The values
  produced by \<^verbatim>\<open>json.loads\<close> are the datatype \<open>json\<close>.
\<close>

subsection \<open>Audio framing of a streamed chunk (\_stream\_audio, lines 211-215)\<close>

type_synonym byte = "8 word"

text \<open>
  Rounding a real to the nearest number with \<open>p\<close> significant bits, ties to the even
  significand: what IEEE 754 arithmetic does with the exact product (\<open>p = 24\<close> for
  float32, \<open>p = 53\<close> for float64). \<open>float_exponent x\<close> is the \<open>e\<close> with
  \<open>2 ^ e \<le> \<bar>x\<bar> < 2 ^ (e + 1)\<close>. The exponent range is taken unbounded: a product that
  would underflow is below 1 and truncates to 0 either way, and one that would overflow
  is outside the 32-bit range and converts to 0 either way (see \<open>astype_int16\<close>).
\<close>

fun bit_length :: "nat \<Rightarrow> nat" where
  "bit_length n = (if n = 0 then 0 else Suc (bit_length (n div 2)))"

declare bit_length.simps [simp del]

definition pow2 :: "int \<Rightarrow> real" where
  "pow2 e = (if 0 \<le> e then 2 ^ nat e else 1 / 2 ^ nat (- e))"

definition float_exponent :: "real \<Rightarrow> int" where
  "float_exponent x =
     (if 1 \<le> \<bar>x\<bar> then int (bit_length (nat \<lfloor>\<bar>x\<bar>\<rfloor>)) - 1
      else - int (bit_length (nat (\<lceil>1 / \<bar>x\<bar>\<rceil> - 1))))"

definition round_half_even :: "real \<Rightarrow> int" where
  "round_half_even x =
     (let f = \<lfloor>x\<rfloor>; r = x - of_int f
      in if r < 1 / 2 then f
         else if 1 / 2 < r then f + 1
         else if even f then f else f + 1)"

definition float_round :: "nat \<Rightarrow> real \<Rightarrow> real" where
  "float_round p x =
     (if x = 0 then 0
      else (let u = pow2 (float_exponent x - (int p - 1))
            in of_int (round_half_even (x / u)) * u))"

text \<open>
  \<^verbatim>\<open>astype(np.int16)\<close> on a float array is the C conversion: the fraction is dropped
  (truncation toward zero) and, for a result within the 32-bit range, the low 16 bits
  are kept, so values outside the int16 range wrap around; a result outside the 32-bit
  range converts to 0.
\<close>

definition trunc_toward_zero :: "real \<Rightarrow> int" where
  "trunc_toward_zero x = (if 0 \<le> x then \<lfloor>x\<rfloor> else \<lceil>x\<rceil>)"

definition astype_int16 :: "real \<Rightarrow> 16 word" where
  "astype_int16 x =
     (let n = trunc_toward_zero x
      in if - (2 ^ 31) \<le> n \<and> n < 2 ^ 31 then word_of_int n else 0)"

text \<open>\<^verbatim>\<open>tobytes()\<close> of an int16 array in native (little-endian) byte order: low byte first.\<close>

definition int16_tobytes :: "16 word \<Rightarrow> byte list" where
  "int16_tobytes w = [ucast w, ucast (drop_bit 8 w)]"

text \<open>
  Lines 211-212: \<^verbatim>\<open>pcm_data = (data * 32767).astype(np.int16)\<close>,
  \<^verbatim>\<open>chunk_bytes = pcm_data.tobytes()\<close>. The product is an array of the float type of
  \<open>data\<close>, whose number of significant bits is \<open>p\<close>.
\<close>

definition pcm16 :: "nat \<Rightarrow> real list \<Rightarrow> byte list" where
  "pcm16 p data =
     concat (map (\<lambda>x. int16_tobytes (astype_int16 (float_round p (x * 32767)))) data)"

text \<open>
  The signed 16-bit value the conversion leaves for a truncated product \<open>n\<close>, in plain
  arithmetic: \<open>n\<close> itself within the int16 range, \<open>n\<close> wrapped modulo \<open>2 ^ 16\<close> within the
  32-bit range, 0 beyond.
\<close>

definition int16_value :: "int \<Rightarrow> int" where
  "int16_value n =
     (if - (2 ^ 31) \<le> n \<and> n < 2 ^ 31 then (n + 32768) mod 65536 - 32768 else 0)"

text \<open>
  The conversion as the specification words it (\<open>toPCM16\<close>): clamp to \<open>[-1, 1]\<close>, scale by
  32767, round to the nearest integer, serialise little-endian 16-bit signed.
\<close>

definition clamp_unit :: "real \<Rightarrow> real" where
  "clamp_unit x = max (-1) (min 1 x)"

definition toPCM16_spec :: "real list \<Rightarrow> byte list" where
  "toPCM16_spec samples =
     concat (map (\<lambda>x. int16_tobytes (word_of_int (round (clamp_unit x * 32767)))) samples)"

text \<open>Reading little-endian 16-bit signed samples back from bytes.\<close>

fun decode_pcm16 :: "byte list \<Rightarrow> int list" where
  "decode_pcm16 (lo # hi # rest) =
     sint ((ucast lo :: 16 word) OR push_bit 8 (ucast hi)) # decode_pcm16 rest"
| "decode_pcm16 _ = []"

subsection \<open>base64.b64encode\<close>

definition b64_alphabet :: string where
  "b64_alphabet = ''ABCDEFGHIJKLMNOPQRSTUVWXYZabcdefghijklmnopqrstuvwxyz0123456789+/''"

definition b64_char :: "nat \<Rightarrow> char" where
  "b64_char n = b64_alphabet ! (n mod 64)"

fun b64encode :: "byte list \<Rightarrow> string" where
  "b64encode (a # b # c # rest) =
     (let n = unat a * 65536 + unat b * 256 + unat c
      in b64_char (n div 262144) # b64_char (n div 4096) # b64_char (n div 64) # b64_char n
         # b64encode rest)"
| "b64encode [a, b] =
     (let n = unat a * 65536 + unat b * 256
      in [b64_char (n div 262144), b64_char (n div 4096), b64_char (n div 64), CHR ''=''])"
| "b64encode [a] =
     (let n = unat a * 65536
      in [b64_char (n div 262144), b64_char (n div 4096), CHR ''='', CHR ''=''])"
| "b64encode [] = []"

subsection \<open>JSON values, dictionary access, truthiness\<close>

datatype json =
    JNull
  | JBool bool
  | JInt int
  | JFloat real
  | JStr string
  | JArr "json list"
  | JObj "(string \<times> json) list"

text \<open>
  A Python \<^verbatim>\<open>dict\<close> is \<open>JObj kvs\<close>, looked up with \<open>map_of\<close>. A raised
  \<^verbatim>\<open>Exception\<close> is \<open>Inl (str e)\<close>.
\<close>

type_synonym 'a raises = "string + 'a"

fun type_name :: "json \<Rightarrow> string" where
  "type_name JNull = ''NoneType''"
| "type_name (JBool _) = ''bool''"
| "type_name (JInt _) = ''int''"
| "type_name (JFloat _) = ''float''"
| "type_name (JStr _) = ''str''"
| "type_name (JArr _) = ''list''"
| "type_name (JObj _) = ''dict''"

text \<open>The message of the \<^verbatim>\<open>AttributeError\<close> raised by \<^verbatim>\<open>v.get\<close> when \<open>v\<close> is no dict.\<close>

definition attribute_error :: "json \<Rightarrow> string" where
  "attribute_error v =
     [CHR 0x27] @ type_name v @ [CHR 0x27] @ '' object has no attribute ''
     @ [CHR 0x27] @ ''get'' @ [CHR 0x27]"

definition dict_get :: "(string \<times> json) list \<Rightarrow> string \<Rightarrow> json \<Rightarrow> json" where
  "dict_get kvs k d = (case map_of kvs k of None \<Rightarrow> d | Some v \<Rightarrow> v)"

fun py_get :: "json \<Rightarrow> string \<Rightarrow> json \<Rightarrow> json raises" where
  "py_get (JObj kvs) k d = Inr (dict_get kvs k d)"
| "py_get v k d = Inl (attribute_error v)"

text \<open>Python truthiness, as tested by \<^verbatim>\<open>if not text\<close>.\<close>

fun truthy :: "json \<Rightarrow> bool" where
  "truthy JNull = False"
| "truthy (JBool b) = b"
| "truthy (JInt n) = (n \<noteq> 0)"
| "truthy (JFloat r) = (r \<noteq> 0)"
| "truthy (JStr s) = (s \<noteq> [])"
| "truthy (JArr xs) = (xs \<noteq> [])"
| "truthy (JObj kvs) = (kvs \<noteq> [])"

subsection \<open>Constants of the config module\<close>

text \<open>
  Modelled from the spec: the module \<^verbatim>\<open>config\<close> (imported at line 20) is not among the
  sources; the values are the defaults and the audio format the specification lists
  (22050 Hz; temperature 0.6, max\_tokens 1200, top\_p 0.95, chunk\_size 25,
  lookback\_frames 15), which are also those of \<^verbatim>\<open>websocket_config.py\<close>.
\<close>

definition SAMPLE_RATE :: nat where "SAMPLE_RATE = 22050"
definition TEMPERATURE :: json where "TEMPERATURE = JFloat (6 / 10)"
definition MAX_TOKENS :: json where "MAX_TOKENS = JInt 1200"
definition TOP_P :: json where "TOP_P = JFloat (95 / 100)"
definition CHUNK_SIZE :: json where "CHUNK_SIZE = JInt 25"
definition LOOKBACK_FRAMES :: json where "LOOKBACK_FRAMES = JInt 15"

subsection \<open>TTSConfig (lines 31-42)\<close>

record TTSConfig =
  temperature :: json
  max_tokens :: json
  top_p :: json
  chunk_size :: json
  lookback_frames :: json
  language :: json
  emotion :: json
  speed :: json
  voice_id :: json

fun TTSConfig_init :: "json \<Rightarrow> TTSConfig raises" where
  "TTSConfig_init (JObj kvs) = Inr
     \<lparr> temperature = dict_get kvs ''temperature'' TEMPERATURE,
       max_tokens = dict_get kvs ''max_tokens'' MAX_TOKENS,
       top_p = dict_get kvs ''top_p'' TOP_P,
       chunk_size = dict_get kvs ''chunk_size'' CHUNK_SIZE,
       lookback_frames = dict_get kvs ''lookback_frames'' LOOKBACK_FRAMES,
       language = dict_get kvs ''language'' (JStr ''spanish''),
       emotion = dict_get kvs ''emotion'' (JStr ''neutral''),
       speed = dict_get kvs ''speed'' (JFloat 1),
       voice_id = dict_get kvs ''voice_id'' (JStr ''default'') \<rparr>"
| "TTSConfig_init v = Inl (attribute_error v)"

subsection \<open>The external collaborators\<close>

text \<open>
  Modelled from the spec: the modules \<^verbatim>\<open>generation\<close> and \<^verbatim>\<open>audio\<close> (imported at lines
  18-19) are not among the sources. The specification describes the Generator as a
  capability that is invoked synchronously and calls the sink zero or more times before
  it returns or raises. So what the server observes of one run of
  \<^verbatim>\<open>start(); generate(...); finalize()\<close> is a sequence of actions: the sink
  (\<^verbatim>\<open>audio_chunks.append\<close>) being called with a chunk of samples, or an exception being
  raised, which ends the run: \<open>Raise\<close> for one of class \<^verbatim>\<open>Exception\<close>, \<open>RaiseBase\<close> for one
  outside it (\<^verbatim>\<open>SystemExit\<close>, \<^verbatim>\<open>KeyboardInterrupt\<close>, \<^verbatim>\<open>GeneratorExit\<close>). A run whose
  actions are exhausted has returned normally.
\<close>

datatype gen_action = Sink "real list" | Raise string | RaiseBase string

text \<open>An exception on its way up: of class \<^verbatim>\<open>Exception\<close>, or outside it.\<close>

datatype raised = Exc string | BaseExc string

record gen_args =
  g_text :: json
  g_chunk_size :: json
  g_lookback_frames :: json
  g_max_tokens :: json

datatype sched_step = WorkerStep | ConsumerStep

text \<open>
  What the environment decides while one inbound message is handled: whether constructing
  the models raises, what the Generator does for given arguments, and how the steps of the
  worker thread and of the consumer loop interleave.
\<close>

record world =
  init_raises :: "string option"
  generator_run :: "gen_args \<Rightarrow> gen_action list"
  schedule :: "sched_step list"

text \<open>
  What is taken as given: \<^verbatim>\<open>scipy.io.wavfile.write\<close> into a buffer, \<^verbatim>\<open>str\<close> of a
  JSON value that is not already a string, and the number of significant bits of the
  float type of the chunk arrays (they come from the audio module).
\<close>

record externals =
  ext_wav_write :: "nat \<Rightarrow> real list \<Rightarrow> byte list"
  ext_str :: "json \<Rightarrow> string"
  ext_float_bits :: nat

definition py_str :: "externals \<Rightarrow> json \<Rightarrow> string" where
  "py_str E v = (case v of JStr s \<Rightarrow> s | _ \<Rightarrow> ext_str E v)"

subsection \<open>WebSocketTTSHandler (lines 45-270)\<close>

record WebSocketTTSHandler =
  initialized :: bool

text \<open>
  What handling a message did: the messages passed to \<^verbatim>\<open>websocket.send\<close>, in order, a
  log of the model construction and of the generation tasks started, the handler
  afterwards, and in \<open>fatal\<close> the exception outside class \<^verbatim>\<open>Exception\<close> that left the
  handling, if any: no \<^verbatim>\<open>except\<close> clause of the file catches it, and it ends the loop of
  \<^verbatim>\<open>handle_client\<close>.
\<close>

datatype task = InitModels | FullTask gen_args | StreamTask gen_args

record outcome =
  sent :: "json list"
  tasks :: "task list"
  handler :: WebSocketTTSHandler
  fatal :: "string option"

text \<open>Lines 53-60. The flag is set only after both constructors have returned.\<close>

definition initialize ::
  "world \<Rightarrow> WebSocketTTSHandler \<Rightarrow> unit raises \<times> task list \<times> WebSocketTTSHandler" where
  "initialize W h =
     (if \<not> initialized h then
        (case init_raises W of
           Some e \<Rightarrow> (Inl e, [], h)
         | None \<Rightarrow> (Inr (), [InitModels], h\<lparr>initialized := True\<rparr>))
      else (Inr (), [], h))"

text \<open>Lines 259-270: the dictionary \_send\_error sends.\<close>

definition error_response :: "string \<Rightarrow> json" where
  "error_response error_message =
     JObj [(''type'', JStr ''tts_response''),
           (''data'', JObj [(''audio'', JStr []),
                            (''status'', JStr ''error''),
                            (''message'', JStr error_message)])]"

definition send_error :: "WebSocketTTSHandler \<Rightarrow> task list \<Rightarrow> string \<Rightarrow> outcome" where
  "send_error h ts error_message =
     \<lparr> sent = [error_response error_message], tasks = ts, handler = h, fatal = None \<rparr>"

text \<open>The sink of the full path is a plain list: chunks are collected until the run ends.\<close>

fun collect_chunks :: "gen_action list \<Rightarrow> raised + real list list" where
  "collect_chunks [] = Inr []"
| "collect_chunks (Sink c # rest) =
     (case collect_chunks rest of Inl e \<Rightarrow> Inl e | Inr cs \<Rightarrow> Inr (c # cs))"
| "collect_chunks (Raise e # rest) = Inl (Exc e)"
| "collect_chunks (RaiseBase e # rest) = Inl (BaseExc e)"

definition writer_args :: "json \<Rightarrow> TTSConfig \<Rightarrow> gen_args" where
  "writer_args text config =
     \<lparr> g_text = text, g_chunk_size = chunk_size config,
       g_lookback_frames = lookback_frames config, g_max_tokens = max_tokens config \<rparr>"

text \<open>Lines 131-163. The parameter \<open>reference_audio\<close> is accepted and not read.\<close>

definition generate_audio ::
  "externals \<Rightarrow> world \<Rightarrow> json \<Rightarrow> TTSConfig \<Rightarrow> json \<Rightarrow> raised + byte list" where
  "generate_audio E W text config reference_audio =
     (case collect_chunks (generator_run W (writer_args text config)) of
        Inl e \<Rightarrow> Inl e
      | Inr audio_chunks \<Rightarrow>
          if audio_chunks = [] then Inl (Exc ''No audio generated'')
          else Inr (ext_wav_write E SAMPLE_RATE (concat audio_chunks)))"

text \<open>Lines 83-98: the success response of a full request.\<close>

definition tts_response :: "TTSConfig \<Rightarrow> byte list \<Rightarrow> json" where
  "tts_response config audio_data =
     JObj [(''type'', JStr ''tts_response''),
           (''data'', JObj
              [(''audio'', JStr (b64encode audio_data)),
               (''status'', JStr ''success''),
               (''message'', JStr ''Audio generated successfully''),
               (''metadata'', JObj
                  [(''duration'', JFloat (real (length audio_data) / real (SAMPLE_RATE * 2))),
                   (''sample_rate'', JInt (int SAMPLE_RATE)),
                   (''channels'', JInt 1),
                   (''language'', language config),
                   (''emotion'', emotion config),
                   (''speed'', speed config)])])]"

text \<open>
  Lines 62-105. The clause \<^verbatim>\<open>except Exception\<close> (line 103) answers an \<^verbatim>\<open>Exception\<close> with
  an error message; an exception outside that class passes through it.
\<close>

definition handle_tts_request ::
  "externals \<Rightarrow> world \<Rightarrow> WebSocketTTSHandler \<Rightarrow> json \<Rightarrow> outcome" where
  "handle_tts_request E W h message =
     (case py_get message ''data'' (JObj []) of
        Inl e \<Rightarrow> send_error h [] e
      | Inr data \<Rightarrow>
     (case py_get data ''text'' (JStr []) of
        Inl e \<Rightarrow> send_error h [] e
      | Inr text \<Rightarrow>
     (case py_get data ''config'' (JObj []) of
        Inl e \<Rightarrow> send_error h [] e
      | Inr config_data \<Rightarrow>
     (case py_get data ''reference_audio'' JNull of
        Inl e \<Rightarrow> send_error h [] e
      | Inr reference_audio \<Rightarrow>
     if \<not> truthy text then send_error h [] ''No text provided''
     else
     (case TTSConfig_init config_data of
        Inl e \<Rightarrow> send_error h [] e
      | Inr config \<Rightarrow>
     (case initialize W h of
        (Inl e, ts, h') \<Rightarrow> send_error h' ts e
      | (Inr _, ts, h') \<Rightarrow>
     (case generate_audio E W text config reference_audio of
        Inl (Exc e) \<Rightarrow> send_error h' (ts @ [FullTask (writer_args text config)]) e
      | Inl (BaseExc e) \<Rightarrow>
          \<lparr> sent = [], tasks = ts @ [FullTask (writer_args text config)],
            handler = h', fatal = Some e \<rparr>
      | Inr audio_data \<Rightarrow>
          \<lparr> sent = [tts_response config audio_data],
            tasks = ts @ [FullTask (writer_args text config)],
            handler = h', fatal = None \<rparr>)))))))"

subsection \<open>The generation bridge (\_stream\_audio, lines 165-257)\<close>

text \<open>The entries of \<^verbatim>\<open>chunk_queue\<close>: \<^verbatim>\<open>("chunk", data)\<close>, \<^verbatim>\<open>("done", None)\<close>, \<^verbatim>\<open>("error", msg)\<close>.\<close>

datatype event = ChunkEv "real list" | DoneEv | ErrorEv string

text \<open>
  The \<^verbatim>\<open>try\<close> block of the worker (lines 188-195): every call of the sink is
  \<^verbatim>\<open>ChunkList.append\<close>, which puts one chunk entry; after the last action the worker puts
  the done entry. The result is the list of puts in the order made, and the exception
  that left the block, if any.
\<close>

fun try_block :: "gen_action list \<Rightarrow> event list \<times> raised option" where
  "try_block [] = ([DoneEv], None)"
| "try_block (Sink chunk # rest) =
     (case try_block rest of (evs, ex) \<Rightarrow> (ChunkEv chunk # evs, ex))"
| "try_block (Raise e # rest) = ([], Some (Exc e))"
| "try_block (RaiseBase e # rest) = ([], Some (BaseExc e))"

text \<open>
  The worker \<^verbatim>\<open>generate\<close> (lines 186-198): the clause \<^verbatim>\<open>except Exception\<close> (line 196)
  puts the error entry; an exception outside class \<^verbatim>\<open>Exception\<close> is not caught, nothing
  more is put, and it leaves the worker. The second component is the exception that
  leaves the worker.
\<close>

definition generate :: "gen_action list \<Rightarrow> event list \<times> string option" where
  "generate acts =
     (case try_block acts of
        (evs, None) \<Rightarrow> (evs, None)
      | (evs, Some (Exc e)) \<Rightarrow> (evs @ [ErrorEv e], None)
      | (evs, Some (BaseExc e)) \<Rightarrow> (evs, Some e))"

text \<open>Lines 211-230 and 237-243: the two messages of the streaming protocol.\<close>

definition chunk_response :: "externals \<Rightarrow> real list \<Rightarrow> json" where
  "chunk_response E data =
     (let chunk_bytes = pcm16 (ext_float_bits E) data in
      JObj [(''type'', JStr ''tts_stream_chunk''),
            (''data'', JObj
               [(''audio'', JStr (b64encode chunk_bytes)),
                (''status'', JStr ''streaming''),
                (''metadata'', JObj
                   [(''chunk_size'', JInt (int (length chunk_bytes))),
                    (''duration'', JFloat (real (length data) / real SAMPLE_RATE)),
                    (''sample_rate'', JInt (int SAMPLE_RATE)),
                    (''channels'', JInt 1)])])])"

definition complete_response :: json where
  "complete_response =
     JObj [(''type'', JStr ''tts_stream_complete''),
           (''data'', JObj [(''status'', JStr ''completed''),
                            (''message'', JStr ''Audio streaming completed'')])]"

text \<open>
  The worker thread and the consumer loop share the queue. \<open>pending\<close> holds the puts the
  worker has still to make, \<open>chunk_queue\<close> the entries put and not yet taken (put at the
  back, taken from the front), \<open>received\<close> what \<^verbatim>\<open>get\<close> has returned so far, \<open>outbox\<close> the
  messages sent, and \<open>running\<close> whether the \<^verbatim>\<open>while True\<close> loop has not yet reached a
  \<^verbatim>\<open>break\<close>.
\<close>

record bridge =
  pending :: "event list"
  chunk_queue :: "event list"
  received :: "event list"
  outbox :: "json list"
  running :: bool

definition worker_put :: "bridge \<Rightarrow> bridge" where
  "worker_put b =
     (case pending b of
        [] \<Rightarrow> b
      | ev # rest \<Rightarrow> b\<lparr>pending := rest, chunk_queue := chunk_queue b @ [ev]\<rparr>)"

text \<open>
  One iteration of the loop (lines 206-254). A \<^verbatim>\<open>get\<close> that finds the queue empty for the
  whole wait of 30 seconds raises \<^verbatim>\<open>queue.Empty\<close>.
\<close>

definition consumer_iter :: "externals \<Rightarrow> bridge \<Rightarrow> bridge" where
  "consumer_iter E b =
     (if \<not> running b then b
      else
        (case chunk_queue b of
           [] \<Rightarrow> b\<lparr>outbox := outbox b @ [error_response ''Generation timeout''],
                   running := False\<rparr>
         | ChunkEv data # q \<Rightarrow>
             b\<lparr>chunk_queue := q, received := received b @ [ChunkEv data],
               outbox := outbox b @ [chunk_response E data]\<rparr>
         | DoneEv # q \<Rightarrow>
             b\<lparr>chunk_queue := q, received := received b @ [DoneEv],
               outbox := outbox b @ [complete_response], running := False\<rparr>
         | ErrorEv data # q \<Rightarrow>
             b\<lparr>chunk_queue := q, received := received b @ [ErrorEv data],
               outbox := outbox b @ [error_response (''Generation error: '' @ data)],
               running := False\<rparr>))"

fun sched_apply :: "externals \<Rightarrow> sched_step \<Rightarrow> bridge \<Rightarrow> bridge" where
  "sched_apply E WorkerStep b = worker_put b"
| "sched_apply E ConsumerStep b = consumer_iter E b"

fun run_schedule :: "externals \<Rightarrow> sched_step list \<Rightarrow> bridge \<Rightarrow> bridge" where
  "run_schedule E [] b = b"
| "run_schedule E (s # ss) b = run_schedule E ss (sched_apply E s b)"

text \<open>
  When the schedule is used up the worker makes no further put in time, and the loop
  goes on alone: it takes what is queued and then times out, unless it breaks before.
\<close>

definition finish :: "externals \<Rightarrow> bridge \<Rightarrow> bridge" where
  "finish E b = (consumer_iter E ^^ Suc (length (chunk_queue b))) b"

definition stream_audio ::
  "externals \<Rightarrow> world \<Rightarrow> json \<Rightarrow> TTSConfig \<Rightarrow> json \<Rightarrow> bridge" where
  "stream_audio E W text config reference_audio =
     finish E (run_schedule E (schedule W)
       \<lparr> pending = fst (generate (generator_run W (writer_args text config))),
         chunk_queue = [], received = [], outbox = [], running = True \<rparr>)"

text \<open>
  Lines 107-129. An exception outside class \<^verbatim>\<open>Exception\<close> in the worker thread ends
  that thread only; this handler goes on.
\<close>

definition handle_streaming_request ::
  "externals \<Rightarrow> world \<Rightarrow> WebSocketTTSHandler \<Rightarrow> json \<Rightarrow> outcome" where
  "handle_streaming_request E W h message =
     (case py_get message ''data'' (JObj []) of
        Inl e \<Rightarrow> send_error h [] e
      | Inr data \<Rightarrow>
     (case py_get data ''text'' (JStr []) of
        Inl e \<Rightarrow> send_error h [] e
      | Inr text \<Rightarrow>
     (case py_get data ''config'' (JObj []) of
        Inl e \<Rightarrow> send_error h [] e
      | Inr config_data \<Rightarrow>
     (case py_get data ''reference_audio'' JNull of
        Inl e \<Rightarrow> send_error h [] e
      | Inr reference_audio \<Rightarrow>
     if \<not> truthy text then send_error h [] ''No text provided''
     else
     (case TTSConfig_init config_data of
        Inl e \<Rightarrow> send_error h [] e
      | Inr config \<Rightarrow>
     (case initialize W h of
        (Inl e, ts, h') \<Rightarrow> send_error h' ts e
      | (Inr _, ts, h') \<Rightarrow>
          \<lparr> sent = outbox (stream_audio E W text config reference_audio),
            tasks = ts @ [StreamTask (writer_args text config)],
            handler = h', fatal = None \<rparr>))))))"

subsection \<open>The connection handler (handle\_client, lines 277-317)\<close>

text \<open>
  What \<^verbatim>\<open>json.loads(message)\<close> does with an inbound frame:
  \<^item> \<open>InvalidJson\<close>: the frame is text that is not a JSON document, \<^verbatim>\<open>JSONDecodeError\<close> is
    raised;
  \<^item> \<open>Undecodable e\<close>: the frame is binary and its bytes are not UTF-8, so it is no JSON
    document either, and \<^verbatim>\<open>UnicodeDecodeError\<close> with message \<open>e\<close> is raised;
  \<^item> \<open>LoadsError e\<close>: the frame is a JSON document on which \<^verbatim>\<open>json.loads\<close> raises another
    \<^verbatim>\<open>Exception\<close> with message \<open>e\<close> (nesting too deep, an integer of too many digits);
  \<^item> \<open>Message v\<close>: the value \<open>v\<close> is returned.
\<close>

datatype inbound = InvalidJson | Undecodable string | LoadsError string | Message json

fun not_valid_json :: "inbound \<Rightarrow> bool" where
  "not_valid_json InvalidJson = True"
| "not_valid_json (Undecodable e) = True"
| "not_valid_json (LoadsError e) = False"
| "not_valid_json (Message v) = False"

definition pong_response :: "WebSocketTTSHandler \<Rightarrow> json" where
  "pong_response h =
     JObj [(''type'', JStr ''pong''),
           (''data'', JObj [(''status'', JStr ''alive''),
                            (''tts_initialized'', JBool (initialized h))])]"

text \<open>The body of the \<^verbatim>\<open>async for\<close> loop (lines 284-312) for one inbound message.\<close>

definition handle_message ::
  "externals \<Rightarrow> WebSocketTTSHandler \<Rightarrow> inbound \<times> world \<Rightarrow> outcome" where
  "handle_message E h x =
     (case x of
        (InvalidJson, W) \<Rightarrow> send_error h [] ''Invalid JSON format''
      | (Undecodable e, W) \<Rightarrow> send_error h [] e
      | (LoadsError e, W) \<Rightarrow> send_error h [] e
      | (Message data, W) \<Rightarrow>
          (case py_get data ''type'' (JStr []) of
             Inl e \<Rightarrow> send_error h [] e
           | Inr message_type \<Rightarrow>
               if message_type = JStr ''tts_request'' then handle_tts_request E W h data
               else if message_type = JStr ''tts_stream_request''
                 then handle_streaming_request E W h data
               else if message_type = JStr ''ping''
                 then \<lparr> sent = [pong_response h], tasks = [], handler = h, fatal = None \<rparr>
               else send_error h [] (''Unknown message type: '' @ py_str E message_type)))"

text \<open>
  The loop itself: messages are handled one after the other, each on the handler the
  previous one left. An exception outside class \<^verbatim>\<open>Exception\<close> passes the clauses of lines
  308-317 and ends the loop: the messages that follow are not read.
\<close>

fun handle_client ::
  "externals \<Rightarrow> WebSocketTTSHandler \<Rightarrow> (inbound \<times> world) list \<Rightarrow> outcome" where
  "handle_client E h [] = \<lparr> sent = [], tasks = [], handler = h, fatal = None \<rparr>"
| "handle_client E h (x # xs) =
     (let r = handle_message E h x
      in if fatal r \<noteq> None then r
         else (let r' = handle_client E (handler r) xs
               in \<lparr> sent = sent r @ sent r', tasks = tasks r @ tasks r',
                    handler = handler r', fatal = fatal r' \<rparr>))"

subsection \<open>Reading the messages that were sent\<close>

definition msg_type :: "json \<Rightarrow> json option" where
  "msg_type m = (case m of JObj kvs \<Rightarrow> map_of kvs ''type'' | _ \<Rightarrow> None)"

definition msg_data :: "json \<Rightarrow> string \<Rightarrow> json option" where
  "msg_data m k =
     (case m of
        JObj kvs \<Rightarrow> (case map_of kvs ''data'' of Some (JObj d) \<Rightarrow> map_of d k | _ \<Rightarrow> None)
      | _ \<Rightarrow> None)"

definition is_chunk :: "json \<Rightarrow> bool" where
  "is_chunk m = (msg_type m = Some (JStr ''tts_stream_chunk''))"

definition is_complete :: "json \<Rightarrow> bool" where
  "is_complete m = (msg_type m = Some (JStr ''tts_stream_complete''))"

text \<open>An error Envelope: type \<^verbatim>\<open>tts_response\<close>, status \<^verbatim>\<open>error\<close>.\<close>

definition is_error :: "json \<Rightarrow> bool" where
  "is_error m = (msg_type m = Some (JStr ''tts_response'')
                 \<and> msg_data m ''status'' = Some (JStr ''error''))"

definition is_success :: "json \<Rightarrow> bool" where
  "is_success m = (msg_type m = Some (JStr ''tts_response'')
                   \<and> msg_data m ''status'' = Some (JStr ''success''))"

definition reported_duration :: "json \<Rightarrow> json option" where
  "reported_duration m =
     (case msg_data m ''metadata'' of Some (JObj md) \<Rightarrow> map_of md ''duration'' | _ \<Rightarrow> None)"

text \<open>The \<^verbatim>\<open>tts_initialized\<close> flags reported by the pongs among the messages, in order.\<close>

fun pong_flags :: "json list \<Rightarrow> bool list" where
  "pong_flags [] = []"
| "pong_flags (m # ms) =
     (if msg_type m = Some (JStr ''pong'')
      then (case msg_data m ''tts_initialized'' of
              Some (JBool b) \<Rightarrow> b # pong_flags ms
            | _ \<Rightarrow> pong_flags ms)
      else pong_flags ms)"

text \<open>The chunks among queue entries, in order.\<close>

fun chunks_of :: "event list \<Rightarrow> real list list" where
  "chunks_of [] = []"
| "chunks_of (ChunkEv d # evs) = d # chunks_of evs"
| "chunks_of (_ # evs) = chunks_of evs"

text \<open>
  What a run of the Generator is to leave in the queue, in the words of the bridge
  contract: one chunk entry for each sink call made, then \<open>done\<close> on normal return or
  \<open>error\<close> with the reason on a failure.
\<close>

fun sunk :: "gen_action list \<Rightarrow> real list list" where
  "sunk [] = []"
| "sunk (Sink c # rest) = c # sunk rest"
| "sunk (Raise e # rest) = []"
| "sunk (RaiseBase e # rest) = []"

text \<open>The sentinel of a run, as a list: none when the run ends in \<open>RaiseBase\<close>.\<close>

fun sentinels :: "gen_action list \<Rightarrow> event list" where
  "sentinels [] = [DoneEv]"
| "sentinels (Sink c # rest) = sentinels rest"
| "sentinels (Raise e # rest) = [ErrorEv e]"
| "sentinels (RaiseBase e # rest) = []"

text \<open>The exception that leaves the worker.\<close>

fun escapes :: "gen_action list \<Rightarrow> string option" where
  "escapes [] = None"
| "escapes (Sink c # rest) = escapes rest"
| "escapes (Raise e # rest) = None"
| "escapes (RaiseBase e # rest) = Some e"

fun is_sentinel :: "event \<Rightarrow> bool" where
  "is_sentinel (ChunkEv _) = False"
| "is_sentinel _ = True"

subsection \<open>A 16-bit container and example environments\<close>

text \<open>
  Modelled from the spec: \<^verbatim>\<open>scipy.io.wavfile.write\<close> is a library function outside the
  sources. \<open>toContainer\<close> is the container of the specification, an uncompressed file with
  the header fields sample rate, one channel and bit depth 16: the 44 bytes of the
  canonical RIFF/WAVE header, then two bytes for each sample, converted as the streamed
  chunks are (\<open>p\<close> is the number of significant bits of the samples' float type).
\<close>

definition le16 :: "nat \<Rightarrow> byte list" where
  "le16 n = [of_nat n, of_nat (n div 256)]"

definition le32 :: "nat \<Rightarrow> byte list" where
  "le32 n = [of_nat n, of_nat (n div 256), of_nat (n div 65536), of_nat (n div 16777216)]"

definition ascii :: "string \<Rightarrow> byte list" where
  "ascii s = map (\<lambda>c. of_nat (of_char c)) s"

definition toContainer :: "nat \<Rightarrow> nat \<Rightarrow> real list \<Rightarrow> byte list" where
  "toContainer p sampleRate samples =
     (let payload = pcm16 p samples in
      ascii ''RIFF'' @ le32 (36 + length payload) @ ascii ''WAVE''
      @ ascii ''fmt '' @ le32 16 @ le16 1 @ le16 1 @ le32 sampleRate
      @ le32 (sampleRate * 2) @ le16 2 @ le16 16
      @ ascii ''data'' @ le32 (length payload) @ payload)"

definition container_samples :: "byte list \<Rightarrow> int list" where
  "container_samples audio_data = decode_pcm16 (drop 44 audio_data)"

definition example_externals :: externals where
  "example_externals =
     \<lparr> ext_wav_write = toContainer 24, ext_str = (\<lambda>v. ''?''), ext_float_bits = 24 \<rparr>"

definition example_world :: world where
  "example_world =
     \<lparr> init_raises = None,
       generator_run = (\<lambda>a. [Sink [1 / 4, 0], Sink [1]]),
       schedule = [WorkerStep, ConsumerStep, WorkerStep, WorkerStep, ConsumerStep] \<rparr>"

definition default_config :: TTSConfig where
  "default_config =
     \<lparr> temperature = TEMPERATURE, max_tokens = MAX_TOKENS, top_p = TOP_P,
       chunk_size = CHUNK_SIZE, lookback_frames = LOOKBACK_FRAMES,
       language = JStr ''spanish'', emotion = JStr ''neutral'', speed = JFloat 1,
       voice_id = JStr ''default'' \<rparr>"

definition fresh_handler :: WebSocketTTSHandler where
  "fresh_handler = \<lparr> initialized = False \<rparr>"

definition hola_request :: json where
  "hola_request =
     JObj [(''type'', JStr ''tts_request''),
           (''data'', JObj [(''text'', JStr ''Hola''), (''config'', JObj [])])]"

definition hola_stream_request :: json where
  "hola_stream_request =
     JObj [(''type'', JStr ''tts_stream_request''),
           (''data'', JObj [(''text'', JStr ''Hola'')])]"

text \<open>
  The message of the \<^verbatim>\<open>UnicodeDecodeError\<close> that \<^verbatim>\<open>json.loads\<close> raises on the binary frame
  of the single byte 0x80.
\<close>

definition utf8_error :: string where
  "utf8_error =
     [CHR 0x27] @ ''utf-8'' @ [CHR 0x27] @ '' codec can'' @ [CHR 0x27]
     @ ''t decode byte 0x80 in position 0: invalid start byte''"

definition ping_request :: json where
  "ping_request = JObj [(''type'', JStr ''ping''), (''data'', JObj [])]"

subsection \<open>Timely schedules and the invariant of the bridge\<close>

text \<open>
  A schedule is timely for a worker with \<open>pend\<close> puts still to make and \<open>q\<close> entries in
  the queue when no \<^verbatim>\<open>get\<close> of the consumer finds the queue empty while the worker has
  puts to make, and the worker has made all its puts when the schedule is used up: no
  wait of the consumer lasts the 30 seconds.
\<close>

fun timely :: "sched_step list \<Rightarrow> nat \<Rightarrow> nat \<Rightarrow> bool" where
  "timely [] pend q = (pend = 0)"
| "timely (WorkerStep # ss) pend q =
     (case pend of 0 \<Rightarrow> timely ss 0 q | Suc n \<Rightarrow> timely ss n (Suc q))"
| "timely (ConsumerStep # ss) pend q =
     (case q of 0 \<Rightarrow> pend = 0 | Suc n \<Rightarrow> timely ss pend n)"

text \<open>
  The last message of a finished loop, read off what was received: a completion for a
  received \<open>done\<close> entry, the generation error for a received \<open>error\<close> entry, the timeout
  error when only chunks were received.
\<close>

definition final_response :: "event list \<Rightarrow> json" where
  "final_response evs =
     (if evs = [] then error_response ''Generation timeout''
      else (case last evs of
              ChunkEv d \<Rightarrow> error_response ''Generation timeout''
            | DoneEv \<Rightarrow> complete_response
            | ErrorEv e \<Rightarrow> error_response (''Generation error: '' @ e)))"

text \<open>
  \<open>pushes\<close> is the sequence of puts of the worker. What has been received, what waits in
  the queue and what is still to be put make up \<open>pushes\<close>, in this order; while the loop
  runs only chunks have been received and each has been sent; once it has stopped, the
  chunk messages are followed by one last message, the one \<open>final_response\<close> names.
\<close>

definition bridge_inv :: "externals \<Rightarrow> event list \<Rightarrow> bridge \<Rightarrow> bool" where
  "bridge_inv E pushes b \<longleftrightarrow>
     received b @ chunk_queue b @ pending b = pushes
     \<and> (if running b
        then outbox b = map (chunk_response E) (chunks_of (received b))
             \<and> received b = map ChunkEv (chunks_of (received b))
        else outbox b
             = map (chunk_response E) (chunks_of (received b)) @ [final_response (received b)])"

section \<open>Properties\<close>

subsection \<open>Rounding to a float type\<close>

lemma bit_length_pos: "0 < n \<Longrightarrow> 0 < bit_length n"
  by (simp add: bit_length.simps[of n])

lemma bit_length_bounds:
  "0 < n \<Longrightarrow> (2::nat) ^ (bit_length n - 1) \<le> n \<and> n < 2 ^ bit_length n"
proof (induction n rule: bit_length.induct)
  case (1 n)
  show ?case
  proof (cases "n div 2 = 0")
    case True
    with 1 have "n = 1" by (simp add: div_eq_0_iff)
    then show ?thesis by (simp add: bit_length.simps)
  next
    case False
    with 1 have ih: "(2::nat) ^ (bit_length (n div 2) - 1) \<le> n div 2"
      "n div 2 < 2 ^ bit_length (n div 2)"
      by auto
    have pos: "0 < bit_length (n div 2)" using False by (simp add: bit_length_pos)
    have bl: "bit_length n = Suc (bit_length (n div 2))"
      using 1(2) by (simp add: bit_length.simps[of n])
    obtain k where k: "bit_length (n div 2) = Suc k"
      using pos by (cases "bit_length (n div 2)") simp_all
    have "2 * (n div 2) \<le> n" "n < 2 * (n div 2) + 2" by arith+
    then show ?thesis using ih by (simp add: bl k)
  qed
qed

lemma pow2_pos: "0 < pow2 e"
  by (simp add: pow2_def)

lemma pow2_nat: "pow2 (int n) = 2 ^ n"
  by (simp add: pow2_def)

lemma pow2_powr: "pow2 e = 2 powr (of_int e)"
proof (cases "0 \<le> e")
  case True
  then have "2 powr (of_int e) = (2::real) powr (real (nat e))" by simp
  also have "\<dots> = 2 ^ nat e" by (rule powr_realpow) simp
  finally show ?thesis using True by (simp add: pow2_def)
next
  case False
  then have "2 powr (of_int e) = (2::real) powr (- real (nat (- e)))" by simp
  also have "\<dots> = 1 / 2 powr (real (nat (- e)))" by (simp add: powr_minus divide_inverse)
  also have "2 powr (real (nat (- e))) = (2::real) ^ nat (- e)" by (rule powr_realpow) simp
  finally show ?thesis using False by (simp add: pow2_def)
qed

lemma pow2_neg: "pow2 (- int n) = 1 / 2 ^ n"
  by (simp add: pow2_powr powr_minus powr_realpow divide_inverse)

lemma pow2_mono: "a \<le> b \<Longrightarrow> pow2 a \<le> pow2 b"
  by (simp add: pow2_powr)

text \<open>The exponent names the binade of the number.\<close>

lemma float_exponent_lower: "x \<noteq> 0 \<Longrightarrow> pow2 (float_exponent x) \<le> \<bar>x\<bar>"
proof (cases "1 \<le> \<bar>x\<bar>")
  case True
  let ?n = "nat \<lfloor>\<bar>x\<bar>\<rfloor>"
  have n: "0 < ?n" using True by simp
  have e: "float_exponent x = int (bit_length ?n - 1)"
    using True bit_length_pos[OF n] by (simp add: float_exponent_def)
  have "real ((2::nat) ^ (bit_length ?n - 1)) \<le> real ?n"
    using bit_length_bounds[OF n] by (simp only: of_nat_le_iff)
  also have "real ?n \<le> \<bar>x\<bar>" using True by simp
  finally show ?thesis by (simp add: e pow2_nat)
next
  case False
  assume x: "x \<noteq> 0"
  let ?m = "nat (\<lceil>1 / \<bar>x\<bar>\<rceil> - 1)"
  have e: "float_exponent x = - int (bit_length ?m)"
    using False by (simp add: float_exponent_def)
  have big: "1 < 1 / \<bar>x\<bar>" using False x by simp
  then have c: "2 \<le> \<lceil>1 / \<bar>x\<bar>\<rceil>" by linarith
  then have m: "0 < ?m" by simp
  have nonneg: "0 \<le> \<lceil>1 / \<bar>x\<bar>\<rceil> - 1" using c by linarith
  have mi: "int ?m = \<lceil>1 / \<bar>x\<bar>\<rceil> - 1"
    using nonneg by (simp only: int_nat_eq if_True)
  have "int ?m < int (2 ^ bit_length ?m)"
    using bit_length_bounds[OF m] by (simp only: of_nat_less_iff)
  then have "\<lceil>1 / \<bar>x\<bar>\<rceil> \<le> 2 ^ bit_length ?m"
    unfolding mi by simp
  then have "(of_int \<lceil>1 / \<bar>x\<bar>\<rceil> :: real) \<le> of_int (2 ^ bit_length ?m)"
    by (simp only: of_int_le_iff)
  then have "of_int \<lceil>1 / \<bar>x\<bar>\<rceil> \<le> (2::real) ^ bit_length ?m"
    by simp
  then have "1 / \<bar>x\<bar> \<le> 2 ^ bit_length ?m"
    using le_of_int_ceiling[of "1 / \<bar>x\<bar>"] by linarith
  then have "1 / 2 ^ bit_length ?m \<le> \<bar>x\<bar>"
    using x by (simp add: field_simps)
  then show ?thesis by (simp add: e pow2_neg)
qed

lemma round_half_even_le: "z \<le> of_int N \<Longrightarrow> round_half_even z \<le> N"
proof -
  assume a: "z \<le> of_int N"
  have f: "\<lfloor>z\<rfloor> \<le> N" using a by (simp add: floor_le_iff)
  show ?thesis
  proof (cases "\<lfloor>z\<rfloor> = N")
    case True
    then have "z - of_int \<lfloor>z\<rfloor> \<le> 0" using a by simp
    then show ?thesis using True by (simp add: round_half_even_def Let_def)
  next
    case False
    with f have "\<lfloor>z\<rfloor> + 1 \<le> N" by simp
    then show ?thesis using f by (simp add: round_half_even_def Let_def)
  qed
qed

lemma round_half_even_ge: "of_int N \<le> z \<Longrightarrow> N \<le> round_half_even z"
proof -
  assume "of_int N \<le> z"
  then have "N \<le> \<lfloor>z\<rfloor>" by (simp add: le_floor_iff)
  then show ?thesis by (simp add: round_half_even_def Let_def)
qed

lemma float_round_bounded:
  assumes p: "15 \<le> p" and y: "\<bar>y\<bar> \<le> 32767"
  shows "\<bar>float_round p y\<bar> \<le> 32767"
proof (cases "y = 0")
  case True
  then show ?thesis by (simp add: float_round_def)
next
  case False
  let ?e = "float_exponent y"
  let ?k = "?e - (int p - 1)"
  have "pow2 ?e \<le> \<bar>y\<bar>" using False by (rule float_exponent_lower)
  then have lt: "pow2 ?e < pow2 15" using y by (simp add: pow2_def)
  have e: "?e < 15"
  proof (rule ccontr)
    assume "\<not> ?e < 15"
    then have "pow2 15 \<le> pow2 ?e" by (intro pow2_mono) simp
    with lt show False by simp
  qed
  then have k: "?k \<le> 0" using p by simp
  define M where "M = (2::int) ^ nat (- ?k)"
  have u: "pow2 ?k = 1 / of_int M"
    using k pow2_neg[of "nat (- ?k)"] by (simp add: M_def)
  have Mpos: "0 < M" by (simp add: M_def)
  have fr: "float_round p y = of_int (round_half_even (y * of_int M)) / of_int M"
    using False by (simp add: float_round_def Let_def u)
  have rM: "0 \<le> (of_int M :: real)" using Mpos by simp
  have "y \<le> 32767" "- 32767 \<le> y" using y by (simp_all add: abs_le_iff)
  then have "y * of_int M \<le> 32767 * of_int M" "- 32767 * of_int M \<le> y * of_int M"
    using rM by (simp_all only: mult_right_mono)
  then have "y * of_int M \<le> of_int (32767 * M)" "of_int (- 32767 * M) \<le> y * of_int M"
    by simp_all
  then have "round_half_even (y * of_int M) \<le> 32767 * M"
    "- 32767 * M \<le> round_half_even (y * of_int M)"
    by (auto intro: round_half_even_le round_half_even_ge)
  then have "(of_int (round_half_even (y * of_int M)) :: real) \<le> of_int (32767 * M)"
    "(of_int (- 32767 * M) :: real) \<le> of_int (round_half_even (y * of_int M))"
    by (simp_all only: of_int_le_iff)
  then show ?thesis using Mpos
    by (simp add: fr abs_le_iff field_simps)
qed

lemma float_exponent_upper: "x \<noteq> 0 \<Longrightarrow> \<bar>x\<bar> < pow2 (float_exponent x + 1)"
proof (cases "1 \<le> \<bar>x\<bar>")
  case True
  let ?n = "nat \<lfloor>\<bar>x\<bar>\<rfloor>"
  have n: "0 < ?n" using True by simp
  have e: "float_exponent x + 1 = int (bit_length ?n)"
    using True by (simp add: float_exponent_def)
  have "int ?n < int (2 ^ bit_length ?n)"
    using bit_length_bounds[OF n] by (simp only: of_nat_less_iff)
  moreover have "int ?n = \<lfloor>\<bar>x\<bar>\<rfloor>" by simp
  ultimately have "\<lfloor>\<bar>x\<bar>\<rfloor> < 2 ^ bit_length ?n" by simp
  then have "\<bar>x\<bar> < of_int (2 ^ bit_length ?n)" by (simp only: floor_less_iff)
  then show ?thesis by (simp add: e pow2_nat)
next
  case False
  assume x: "x \<noteq> 0"
  let ?m = "nat (\<lceil>1 / \<bar>x\<bar>\<rceil> - 1)"
  have big: "1 < 1 / \<bar>x\<bar>" using False x by simp
  then have c: "2 \<le> \<lceil>1 / \<bar>x\<bar>\<rceil>" by linarith
  then have m: "0 < ?m" by simp
  obtain k where k: "bit_length ?m = Suc k"
    using bit_length_pos[OF m] by (cases "bit_length ?m") simp_all
  have e: "float_exponent x + 1 = - int k"
    using False by (simp add: float_exponent_def k)
  have nonneg: "0 \<le> \<lceil>1 / \<bar>x\<bar>\<rceil> - 1" using c by linarith
  have mi: "int ?m = \<lceil>1 / \<bar>x\<bar>\<rceil> - 1"
    using nonneg by (simp only: int_nat_eq if_True)
  have "int (2 ^ k) \<le> int ?m"
    using bit_length_bounds[OF m] by (simp only: of_nat_le_iff k diff_Suc_1)
  then have "2 ^ k \<le> \<lceil>1 / \<bar>x\<bar>\<rceil> - 1" unfolding mi by simp
  then have "(of_int (2 ^ k) :: real) \<le> of_int (\<lceil>1 / \<bar>x\<bar>\<rceil> - 1)"
    by (simp only: of_int_le_iff)
  moreover have "of_int (\<lceil>1 / \<bar>x\<bar>\<rceil> - 1) < 1 / \<bar>x\<bar>"
    using ceiling_correct[of "1 / \<bar>x\<bar>"] by simp
  ultimately have "2 ^ k < 1 / \<bar>x\<bar>" by simp
  then have "\<bar>x\<bar> < 1 / 2 ^ k" using x by (simp add: field_simps)
  then show ?thesis by (simp add: e pow2_neg)
qed

subsection \<open>PCM16 framing\<close>

lemma int16_bytes_roundtrip:
  "(ucast (ucast w :: byte) :: 16 word) OR push_bit 8 (ucast (ucast (drop_bit 8 w) :: byte)) = w"
  by (rule bit_word_eqI) (auto simp: bit_simps)

lemma decode_int16_tobytes:
  "decode_pcm16 (int16_tobytes w @ rest) = sint w # decode_pcm16 rest"
  by (simp add: int16_tobytes_def int16_bytes_roundtrip)

lemma sint_astype_int16: "sint (astype_int16 x) = int16_value (trunc_toward_zero x)"
  by (simp add: astype_int16_def int16_value_def Let_def int_word_sint)

lemma int16_value_id: "- 32768 \<le> n \<Longrightarrow> n \<le> 32767 \<Longrightarrow> int16_value n = n"
  by (simp add: int16_value_def)

lemma pcm16_Cons:
  "pcm16 p (x # xs) = int16_tobytes (astype_int16 (float_round p (x * 32767))) @ pcm16 p xs"
  by (simp add: pcm16_def)

lemma length_pcm16: "length (pcm16 p data) = 2 * length data"
  by (induction data) (simp_all add: pcm16_def int16_tobytes_def)

lemma decode_pcm16_eq:
  "decode_pcm16 (pcm16 p data)
     = map (\<lambda>x. int16_value (trunc_toward_zero (float_round p (x * 32767)))) data"
proof (induction data)
  case Nil
  then show ?case by (simp add: pcm16_def)
next
  case (Cons x xs)
  then show ?case by (simp add: pcm16_Cons decode_int16_tobytes sint_astype_int16)
qed

lemma trunc_bounds:
  "\<bar>y\<bar> \<le> 32767 \<Longrightarrow> - 32767 \<le> trunc_toward_zero y \<and> trunc_toward_zero y \<le> 32767"
  unfolding trunc_toward_zero_def
  by (auto simp: le_floor_iff floor_le_iff ceiling_le_iff le_ceiling_iff abs_le_iff)

lemma in_range_product:
  assumes "15 \<le> p" and "- 1 \<le> x" and "x \<le> 1"
  shows "- 32767 \<le> trunc_toward_zero (float_round p (x * 32767))
         \<and> trunc_toward_zero (float_round p (x * 32767)) \<le> 32767"
proof -
  have "\<bar>x * 32767\<bar> \<le> 32767" using assms(2,3) by (simp add: abs_le_iff)
  then have "\<bar>float_round p (x * 32767)\<bar> \<le> 32767" using assms(1) by (intro float_round_bounded)
  then show ?thesis by (rule trunc_bounds)
qed

lemmas float_eval =
  float_round_def float_exponent_def pow2_def round_half_even_def bit_length.simps Let_def

lemmas pcm16_eval =
  pcm16_def astype_int16_def trunc_toward_zero_def int16_tobytes_def float_eval

text \<open>
  C1, as stated, fails on two counts. The sample 0.25 scales to 8191.75 (exact in float32
  and float64), which the code truncates to 8191 (bytes FF 1F), while rounding to the
  nearest integer gives 8192 (bytes 00 20). The sample 2.0 scales to 65534, of which the
  code keeps the low 16 bits, the value -2 (bytes FE FF), while clamping to 1.0 first
  gives 32767 (bytes FF 7F).
\<close>

theorem pcm16_no_clamp_no_rounding_counterexample:
  "pcm16 24 [1 / 4] = [0xFF, 0x1F] \<and> pcm16 53 [1 / 4] = [0xFF, 0x1F]
   \<and> toPCM16_spec [1 / 4] = [0x00, 0x20]
   \<and> pcm16 24 [2] = [0xFE, 0xFF] \<and> pcm16 53 [2] = [0xFE, 0xFF]
   \<and> toPCM16_spec [2] = [0xFF, 0x7F]"
  by (simp add: pcm16_eval toPCM16_spec_def clamp_unit_def round_def)

text \<open>
  C1, amended: for every sequence of samples, the conversion of a streamed chunk neither
  clamps nor rounds to the nearest integer. It scales each sample by 32767 in the float
  type of the array, truncates the product toward zero, keeps it as a 16-bit signed value
  (unchanged within \<open>[-32768, 32767]\<close>, wrapped modulo \<open>2 ^ 16\<close> within the 32-bit range, 0
  beyond) and serialises it as little-endian 16-bit signed mono, two bytes a sample: the
  bytes read back are these values. For samples in \<open>[-1, 1]\<close> (and a float type of at
  least 15 significant bits) the value is the truncated product itself, within
  \<open>[-32767, 32767]\<close>.
\<close>

theorem pcm16_truncates_and_wraps:
  "decode_pcm16 (pcm16 p data)
     = map (\<lambda>x. int16_value (trunc_toward_zero (float_round p (x * 32767)))) data
   \<and> length (pcm16 p data) = 2 * length data
   \<and> (\<forall>n. - 32768 \<le> n \<and> n \<le> 32767 \<longrightarrow> int16_value n = n)
   \<and> (15 \<le> p \<and> (\<forall>x\<in>set data. - 1 \<le> x \<and> x \<le> 1) \<longrightarrow>
        decode_pcm16 (pcm16 p data)
          = map (\<lambda>x. trunc_toward_zero (float_round p (x * 32767))) data
        \<and> (\<forall>v\<in>set (decode_pcm16 (pcm16 p data)). - 32767 \<le> v \<and> v \<le> 32767))"
proof -
  have inr: "decode_pcm16 (pcm16 p data)
          = map (\<lambda>x. trunc_toward_zero (float_round p (x * 32767))) data
        \<and> (\<forall>v\<in>set (decode_pcm16 (pcm16 p data)). - 32767 \<le> v \<and> v \<le> 32767)"
    if p: "15 \<le> p" and r: "\<forall>x\<in>set data. - 1 \<le> x \<and> x \<le> 1"
  proof -
    have b: "\<forall>x\<in>set data. - 32767 \<le> trunc_toward_zero (float_round p (x * 32767))
         \<and> trunc_toward_zero (float_round p (x * 32767)) \<le> 32767"
      using in_range_product[OF p] r by blast
    then have "map (\<lambda>x. int16_value (trunc_toward_zero (float_round p (x * 32767)))) data
        = map (\<lambda>x. trunc_toward_zero (float_round p (x * 32767))) data"
      by (intro map_cong refl int16_value_id) auto
    then show ?thesis using b by (simp add: decode_pcm16_eq)
  qed
  have c1: "decode_pcm16 (pcm16 p data)
     = map (\<lambda>x. int16_value (trunc_toward_zero (float_round p (x * 32767)))) data"
    by (rule decode_pcm16_eq)
  have c2: "length (pcm16 p data) = 2 * length data" by (rule length_pcm16)
  have c3: "\<forall>n. - 32768 \<le> n \<and> n \<le> 32767 \<longrightarrow> int16_value n = n"
    by (simp add: int16_value_id)
  from c1 c2 c3 inr show ?thesis by blast
qed

theorem pcm16_truncates_and_wraps_witness:
  "decode_pcm16 (pcm16 24 [1 / 4, 32769 / 2 ^ 30, - 1]) = [8191, 1, - 32767]
   \<and> decode_pcm16 (pcm16 53 [1 / 4, 32769 / 2 ^ 30, - 1]) = [8191, 0, - 32767]
   \<and> decode_pcm16 (pcm16 24 [2, 70000]) = [- 2, 0]
   \<and> length (pcm16 24 [2, 70000]) = 4"
proof -
  have a: "decode_pcm16 (pcm16 24 [1 / 4, 32769 / 2 ^ 30, - 1]) = [8191, 1, - 32767]"
    using pcm16_truncates_and_wraps [of 24 "[1 / 4, 32769 / 2 ^ 30, - 1]"]
    by (simp add: float_eval trunc_toward_zero_def)
  have b: "decode_pcm16 (pcm16 53 [1 / 4, 32769 / 2 ^ 30, - 1]) = [8191, 0, - 32767]"
    using pcm16_truncates_and_wraps [of 53 "[1 / 4, 32769 / 2 ^ 30, - 1]"]
    by (simp add: float_eval trunc_toward_zero_def)
  have c: "decode_pcm16 (pcm16 24 [2, 70000]) = [- 2, 0]
      \<and> length (pcm16 24 [2, 70000]) = 4"
    using pcm16_truncates_and_wraps [of 24 "[2, 70000]"]
    by (simp add: float_eval trunc_toward_zero_def int16_value_def)
  from a b c show ?thesis by blast
qed

subsection \<open>The worker\<close>

lemma generate_eq:
  "generate acts = (map ChunkEv (sunk acts) @ sentinels acts, escapes acts)"
  by (induction acts rule: sunk.induct)
     (auto simp: generate_def split: prod.splits option.splits raised.splits)

lemma sentinels_are_sentinels: "list_all is_sentinel (sentinels acts)"
  by (induction acts rule: sentinels.induct) auto

lemma length_sentinels: "length (sentinels acts) \<le> 1"
  by (induction acts rule: sentinels.induct) auto

lemma collect_chunks_Inr:
  "collect_chunks acts = Inr cs \<Longrightarrow>
     sunk acts = cs \<and> sentinels acts = [DoneEv] \<and> escapes acts = None"
  by (induction acts arbitrary: cs rule: collect_chunks.induct) (auto split: sum.splits)

lemma collect_chunks_Exc:
  "collect_chunks acts = Inl (Exc e) \<Longrightarrow> sentinels acts = [ErrorEv e] \<and> escapes acts = None"
  by (induction acts rule: collect_chunks.induct) (auto split: sum.splits)

lemma collect_chunks_BaseExc:
  "collect_chunks acts = Inl (BaseExc e) \<Longrightarrow> sentinels acts = [] \<and> escapes acts = Some e"
  by (induction acts rule: collect_chunks.induct) (auto split: sum.splits)

lemma chunks_of_map_ChunkEv [simp]: "chunks_of (map ChunkEv cs) = cs"
  by (induction cs) auto

lemma chunks_of_append [simp]: "chunks_of (xs @ ys) = chunks_of xs @ chunks_of ys"
  by (induction xs rule: chunks_of.induct) auto

lemma chunks_of_sentinel [simp]: "is_sentinel s \<Longrightarrow> chunks_of [s] = []"
  by (cases s) auto

lemma chunks_of_sentinels [simp]: "chunks_of (sentinels acts) = []"
  by (induction acts rule: sentinels.induct) auto

lemma filter_sentinel_map_ChunkEv [simp]: "filter is_sentinel (map ChunkEv cs) = []"
  by (induction cs) auto

lemma filter_sentinel_sentinels [simp]: "filter is_sentinel (sentinels acts) = sentinels acts"
  by (induction acts rule: sentinels.induct) auto

text \<open>
  C3, as stated, fails: when the Generator raises an exception outside class
  \<^verbatim>\<open>Exception\<close> after one chunk (\<^verbatim>\<open>sys.exit(1)\<close>, say), the worker has put the chunk and
  puts no sentinel, and the exception leaves the worker.
\<close>

theorem worker_base_exception_counterexample:
  "generate [Sink [0], RaiseBase ''1''] = ([ChunkEv [0]], Some ''1'')
   \<and> filter is_sentinel (fst (generate [Sink [0], RaiseBase ''1''])) = []
   \<and> snd (generate [Sink [0], RaiseBase ''1'']) \<noteq> None"
  by (simp add: generate_def)

text \<open>
  C3, amended: for every run of the worker, the entries put are one chunk entry for each
  call of the sink, in order, followed by at most one sentinel, after which nothing is
  put. On normal return of the Generator the sentinel is \<open>done\<close>; on an exception of class
  \<^verbatim>\<open>Exception\<close> it is \<open>error\<close> with the reason, and the exception does not leave the worker;
  on an exception outside class \<^verbatim>\<open>Exception\<close> no sentinel is put and the exception leaves
  the worker.
\<close>

theorem worker_pushes_at_most_one_sentinel:
  "fst (generate acts) = map ChunkEv (sunk acts) @ sentinels acts
   \<and> chunks_of (fst (generate acts)) = sunk acts
   \<and> filter is_sentinel (fst (generate acts)) = sentinels acts
   \<and> length (sentinels acts) \<le> 1
   \<and> (\<forall>cs. collect_chunks acts = Inr cs \<longrightarrow>
         generate acts = (map ChunkEv cs @ [DoneEv], None))
   \<and> (\<forall>e. collect_chunks acts = Inl (Exc e) \<longrightarrow>
         generate acts = (map ChunkEv (sunk acts) @ [ErrorEv e], None))
   \<and> (\<forall>e. collect_chunks acts = Inl (BaseExc e) \<longrightarrow>
         generate acts = (map ChunkEv (sunk acts), Some e))"
proof -
  have a: "\<forall>cs. collect_chunks acts = Inr cs \<longrightarrow>
         generate acts = (map ChunkEv cs @ [DoneEv], None)"
    using collect_chunks_Inr by (auto simp: generate_eq)
  have b: "\<forall>e. collect_chunks acts = Inl (Exc e) \<longrightarrow>
         generate acts = (map ChunkEv (sunk acts) @ [ErrorEv e], None)"
    using collect_chunks_Exc by (auto simp: generate_eq)
  have c: "\<forall>e. collect_chunks acts = Inl (BaseExc e) \<longrightarrow>
         generate acts = (map ChunkEv (sunk acts), Some e)"
    using collect_chunks_BaseExc by (auto simp: generate_eq)
  have d: "fst (generate acts) = map ChunkEv (sunk acts) @ sentinels acts"
    "chunks_of (fst (generate acts)) = sunk acts"
    "filter is_sentinel (fst (generate acts)) = sentinels acts"
    by (simp_all add: generate_eq)
  from a b c d length_sentinels show ?thesis by blast
qed

theorem worker_pushes_at_most_one_sentinel_witness:
  "generate [Sink [0], Sink [1 / 2], Raise ''boom'', Sink [1]]
     = ([ChunkEv [0], ChunkEv [1 / 2], ErrorEv ''boom''], None)
   \<and> generate [Sink [0], Sink [1 / 2]] = ([ChunkEv [0], ChunkEv [1 / 2], DoneEv], None)
   \<and> generate [Sink [0], RaiseBase ''1'', Sink [1]] = ([ChunkEv [0]], Some ''1'')"
  using worker_pushes_at_most_one_sentinel [of "[Sink [0], Sink [1 / 2], Raise ''boom'', Sink [1]]"]
        worker_pushes_at_most_one_sentinel [of "[Sink [0], Sink [1 / 2]]"]
        worker_pushes_at_most_one_sentinel [of "[Sink [0], RaiseBase ''1'', Sink [1]]"]
  by simp

subsection \<open>The consumer loop under every interleaving\<close>

lemma msg_kinds [simp]:
  "is_chunk (chunk_response E d)" "\<not> is_complete (chunk_response E d)"
  "\<not> is_error (chunk_response E d)"
  "is_complete complete_response" "\<not> is_chunk complete_response"
  "\<not> is_error complete_response"
  "is_error (error_response m)" "\<not> is_chunk (error_response m)"
  "\<not> is_complete (error_response m)"
  by (simp_all add: is_chunk_def is_complete_def is_error_def msg_type_def msg_data_def
      chunk_response_def complete_response_def error_response_def Let_def)

lemma final_response_done [simp]: "final_response (r @ [DoneEv]) = complete_response"
  by (simp add: final_response_def)

lemma final_response_error [simp]:
  "final_response (r @ [ErrorEv e]) = error_response (''Generation error: '' @ e)"
  by (simp add: final_response_def)

lemma final_response_chunks [simp]:
  "final_response (map ChunkEv cs) = error_response ''Generation timeout''"
  by (cases cs rule: rev_cases) (simp_all add: final_response_def)

lemma final_response_kind: "is_complete (final_response evs) \<or> is_error (final_response evs)"
  by (simp add: final_response_def split: event.splits)

lemma inv_init:
  "bridge_inv E pushes
     \<lparr>pending = pushes, chunk_queue = [], received = [], outbox = [], running = True\<rparr>"
  by (simp add: bridge_inv_def)

lemma inv_worker_put: "bridge_inv E P b \<Longrightarrow> bridge_inv E P (worker_put b)"
  by (auto simp: bridge_inv_def worker_put_def split: list.splits)

lemma inv_consumer_iter:
  assumes "bridge_inv E P b"
  shows "bridge_inv E P (consumer_iter E b)"
proof (cases "running b")
  case False
  then show ?thesis using assms by (simp add: consumer_iter_def)
next
  case True
  from assms True have r: "received b = map ChunkEv (chunks_of (received b))"
    and ob: "outbox b = map (chunk_response E) (chunks_of (received b))"
    and p: "received b @ chunk_queue b @ pending b = P"
    by (simp_all add: bridge_inv_def)
  have t: "final_response (received b) = error_response ''Generation timeout''"
    by (subst r) (rule final_response_chunks)
  show ?thesis
  proof (cases "chunk_queue b")
    case Nil
    then show ?thesis using True p ob t by (simp add: consumer_iter_def bridge_inv_def)
  next
    case (Cons ev q)
    then show ?thesis using True p ob r
      by (cases ev) (simp_all add: consumer_iter_def bridge_inv_def)
  qed
qed

lemma inv_run_schedule: "bridge_inv E P b \<Longrightarrow> bridge_inv E P (run_schedule E ss b)"
proof (induction ss arbitrary: b)
  case Nil
  then show ?case by simp
next
  case (Cons s ss)
  then show ?case by (cases s) (simp_all add: inv_worker_put inv_consumer_iter)
qed

lemma inv_funpow: "bridge_inv E P b \<Longrightarrow> bridge_inv E P ((consumer_iter E ^^ n) b)"
  by (induction n) (simp_all add: inv_consumer_iter)

lemma consumer_iter_stopped: "\<not> running b \<Longrightarrow> consumer_iter E b = b"
  by (simp add: consumer_iter_def)

lemma funpow_stopped: "\<not> running b \<Longrightarrow> (consumer_iter E ^^ n) b = b"
  by (induction n) (simp_all add: consumer_iter_stopped)

lemma consumer_iter_progress:
  "running (consumer_iter E b) \<Longrightarrow>
     length (chunk_queue (consumer_iter E b)) < length (chunk_queue b)"
  by (auto simp: consumer_iter_def split: list.splits event.splits if_splits)

text \<open>The loop ends: each iteration breaks or takes an entry from the queue.\<close>

lemma funpow_stops: "length (chunk_queue b) < n \<Longrightarrow> \<not> running ((consumer_iter E ^^ n) b)"
proof (induction n arbitrary: b)
  case 0
  then show ?case by simp
next
  case (Suc n)
  show ?case
  proof (cases "running (consumer_iter E b)")
    case False
    then show ?thesis by (simp add: funpow_swap1 funpow_stopped)
  next
    case True
    then have "length (chunk_queue (consumer_iter E b)) < n"
      using consumer_iter_progress[OF True] Suc.prems by simp
    then show ?thesis using Suc.IH by (simp add: funpow_swap1)
  qed
qed

lemma finish_stops: "\<not> running (finish E b)"
  unfolding finish_def by (rule funpow_stops) simp

lemma inv_finish: "bridge_inv E P b \<Longrightarrow> bridge_inv E P (finish E b)"
  unfolding finish_def by (rule inv_funpow)

lemma stream_audio_stops: "\<not> running (stream_audio E W tx config ra)"
  by (simp add: stream_audio_def finish_stops)

lemma stream_audio_inv:
  "bridge_inv E (fst (generate (generator_run W (writer_args tx config))))
     (stream_audio E W tx config ra)"
  unfolding stream_audio_def
  by (rule inv_finish, rule inv_run_schedule) (simp add: inv_init)

lemma stream_audio_outbox:
  "outbox (stream_audio E W tx config ra)
     = map (chunk_response E) (chunks_of (received (stream_audio E W tx config ra)))
       @ [final_response (received (stream_audio E W tx config ra))]"
  using stream_audio_inv[of E W tx config ra] stream_audio_stops[of E W tx config ra]
  by (simp add: bridge_inv_def)

lemma handle_streaming_request_cases:
  "(\<exists>e. sent (handle_streaming_request E W h m) = [error_response e])
   \<or> (\<exists>tx cfg ra. sent (handle_streaming_request E W h m) = outbox (stream_audio E W tx cfg ra))"
  by (auto simp: handle_streaming_request_def send_error_def split: sum.splits prod.splits)

lemma list_all_chunk_map [simp]: "list_all is_chunk (map (chunk_response E) cs)"
  by (induction cs) auto

lemma list_all_not_terminal_map [simp]:
  "list_all (\<lambda>m. \<not> is_complete m \<and> \<not> is_error m) (map (chunk_response E) cs)"
  by (induction cs) auto

lemma not_complete_and_error: "\<not> (is_complete t \<and> is_error t)"
  by (auto simp: is_complete_def is_error_def)

lemma terminal_not_chunk: "is_complete t \<or> is_error t \<Longrightarrow> \<not> is_chunk t"
  by (auto simp: is_complete_def is_error_def is_chunk_def)

lemma shapeI:
  "xs = ms @ [t] \<Longrightarrow> list_all is_chunk ms
   \<Longrightarrow> list_all (\<lambda>m. \<not> is_complete m \<and> \<not> is_error m) ms
   \<Longrightarrow> is_complete t \<or> is_error t
   \<Longrightarrow> \<exists>ms t. xs = ms @ [t]
     \<and> list_all is_chunk ms
     \<and> list_all (\<lambda>m. \<not> is_complete m \<and> \<not> is_error m) ms
     \<and> (is_complete t \<or> is_error t)
     \<and> \<not> (is_complete t \<and> is_error t)
     \<and> \<not> is_chunk t"
  using not_complete_and_error terminal_not_chunk by blast

lemma stream_shape:
  "\<exists>ms t. sent (handle_streaming_request E W h message) = ms @ [t]
     \<and> list_all is_chunk ms
     \<and> list_all (\<lambda>m. \<not> is_complete m \<and> \<not> is_error m) ms
     \<and> (is_complete t \<or> is_error t)
     \<and> \<not> (is_complete t \<and> is_error t)
     \<and> \<not> is_chunk t"
proof -
  consider (err) e where "sent (handle_streaming_request E W h message) = [error_response e]"
    | (str) tx cfg ra where
        "sent (handle_streaming_request E W h message) = outbox (stream_audio E W tx cfg ra)"
    using handle_streaming_request_cases by blast
  then show ?thesis
  proof cases
    case err
    show ?thesis
      by (rule shapeI[where ms = "[]" and t = "error_response e"]) (simp_all add: err)
  next
    case str
    show ?thesis
      by (rule shapeI[OF _ list_all_chunk_map list_all_not_terminal_map final_response_kind])
         (simp add: str stream_audio_outbox)
  qed
qed

subsection \<open>Timely schedules\<close>

lemma stopped_sched_apply:
  "\<not> running b \<Longrightarrow>
     \<not> running (sched_apply E st b) \<and> received (sched_apply E st b) = received b"
  by (cases st) (auto simp: consumer_iter_def worker_put_def split: list.splits)

lemma stopped_run_schedule:
  "\<not> running b \<Longrightarrow>
     \<not> running (run_schedule E ss b) \<and> received (run_schedule E ss b) = received b"
proof (induction ss arbitrary: b)
  case Nil
  then show ?case by simp
next
  case (Cons st ss)
  from stopped_sched_apply[OF Cons.prems, of E st] Cons.IH[of "sched_apply E st b"]
  show ?case by simp
qed

lemma finish_stopped: "\<not> running b \<Longrightarrow> finish E b = b"
  unfolding finish_def by (rule funpow_stopped)

lemma stopped_finish_run:
  "\<not> running b \<Longrightarrow> received (finish E (run_schedule E ss b)) = received b"
  using stopped_run_schedule[of b E ss] by (simp add: finish_stopped)

lemma sentinel_position:
  "r @ s' # rest = map ChunkEv cs @ [s] \<Longrightarrow> is_sentinel s' \<Longrightarrow>
     rest = [] \<and> s' = s \<and> r = map ChunkEv cs"
  by (induction cs arbitrary: r) (auto simp: append_eq_Cons_conv Cons_eq_append_conv)

lemma chunks_have_no_sentinel:
  "map ChunkEv xs = ys @ [s] \<Longrightarrow> is_sentinel s \<Longrightarrow> False"
proof -
  assume a: "map ChunkEv xs = ys @ [s]" and s: "is_sentinel s"
  have "filter is_sentinel (map ChunkEv xs) = filter is_sentinel (ys @ [s])"
    by (simp only: a)
  then show False using s by simp
qed

text \<open>
  One iteration on a running loop whose queue is not empty: it goes on after a chunk, with
  one entry fewer in the queue, or it has received the whole sequence of puts.
\<close>

lemma consumer_iter_takes:
  assumes inv: "bridge_inv E (map ChunkEv cs @ [s]) b" and s: "is_sentinel s"
    and run: "running b" and q: "chunk_queue b \<noteq> []"
  shows "(running (consumer_iter E b)
            \<and> pending (consumer_iter E b) = pending b
            \<and> Suc (length (chunk_queue (consumer_iter E b))) = length (chunk_queue b))
         \<or> (\<not> running (consumer_iter E b)
            \<and> received (consumer_iter E b) = map ChunkEv cs @ [s])"
proof -
  from q obtain ev q' where c: "chunk_queue b = ev # q'" by (cases "chunk_queue b") auto
  from inv have p: "received b @ chunk_queue b @ pending b = map ChunkEv cs @ [s]"
    by (simp add: bridge_inv_def)
  show ?thesis
  proof (cases "is_sentinel ev")
    case False
    then show ?thesis using run c by (cases ev) (simp_all add: consumer_iter_def)
  next
    case True
    from p c have "received b @ ev # (q' @ pending b) = map ChunkEv cs @ [s]" by simp
    from sentinel_position[OF this True]
    have rc: "received b @ [ev] = map ChunkEv cs @ [s]" by simp
    have "\<not> running (consumer_iter E b)
        \<and> received (consumer_iter E b) = received b @ [ev]"
      using run c True by (cases ev) (simp_all add: consumer_iter_def)
    then have "\<not> running (consumer_iter E b)
        \<and> received (consumer_iter E b) = map ChunkEv cs @ [s]"
      unfolding rc .
    then show ?thesis by (rule disjI2)
  qed
qed

lemma running_has_more:
  assumes inv: "bridge_inv E (map ChunkEv cs @ [s]) b" and s: "is_sentinel s"
    and run: "running b" and p: "pending b = []"
  shows "chunk_queue b \<noteq> []"
proof
  assume "chunk_queue b = []"
  with inv p have "received b = map ChunkEv cs @ [s]" by (simp add: bridge_inv_def)
  moreover from inv run have "received b = map ChunkEv (chunks_of (received b))"
    by (simp add: bridge_inv_def)
  ultimately have "map ChunkEv (chunks_of (received b)) = map ChunkEv cs @ [s]" by simp
  from chunks_have_no_sentinel[OF this s] show False .
qed

lemma drain_receives_all:
  assumes "bridge_inv E (map ChunkEv cs @ [s]) b" and "is_sentinel s"
    and "running b" and "pending b = []" and "length (chunk_queue b) \<le> n"
  shows "received ((consumer_iter E ^^ n) b) = map ChunkEv cs @ [s]"
  using assms
proof (induction n arbitrary: b)
  case 0
  with running_has_more[OF "0.prems"(1-4)] show ?case by simp
next
  case (Suc n)
  have q: "chunk_queue b \<noteq> []" by (rule running_has_more[OF Suc.prems(1-4)])
  let ?b = "consumer_iter E b"
  have inv': "bridge_inv E (map ChunkEv cs @ [s]) ?b"
    by (rule inv_consumer_iter[OF Suc.prems(1)])
  from consumer_iter_takes[OF Suc.prems(1-3) q] show ?case
  proof
    assume a: "running ?b \<and> pending ?b = pending b
      \<and> Suc (length (chunk_queue ?b)) = length (chunk_queue b)"
    then have "length (chunk_queue ?b) \<le> n" using Suc.prems(5) by simp
    from Suc.IH[OF inv' Suc.prems(2) _ _ this] a Suc.prems(4)
    show ?thesis by (simp add: funpow_swap1)
  next
    assume a: "\<not> running ?b \<and> received ?b = map ChunkEv cs @ [s]"
    then show ?thesis by (simp add: funpow_swap1 funpow_stopped)
  qed
qed

lemma timely_receives_all:
  assumes "bridge_inv E (map ChunkEv cs @ [s]) b" and "is_sentinel s" and "running b"
    and "timely ss (length (pending b)) (length (chunk_queue b))"
  shows "received (finish E (run_schedule E ss b)) = map ChunkEv cs @ [s]"
  using assms
proof (induction ss arbitrary: b)
  case Nil
  then have "pending b = []" by simp
  from drain_receives_all[OF Nil.prems(1-3) this, of "Suc (length (chunk_queue b))"]
  show ?case by (simp add: finish_def)
next
  case (Cons st ss)
  show ?case
  proof (cases st)
    case WorkerStep
    let ?b = "worker_put b"
    have inv': "bridge_inv E (map ChunkEv cs @ [s]) ?b"
      by (rule inv_worker_put[OF Cons.prems(1)])
    have run': "running ?b" using Cons.prems(3)
      by (simp add: worker_put_def split: list.splits)
    have "timely ss (length (pending ?b)) (length (chunk_queue ?b))"
      using Cons.prems(4) WorkerStep by (cases "pending b") (simp_all add: worker_put_def)
    from Cons.IH[OF inv' Cons.prems(2) run' this] WorkerStep show ?thesis by simp
  next
    case ConsumerStep
    let ?b = "consumer_iter E b"
    have inv': "bridge_inv E (map ChunkEv cs @ [s]) ?b"
      by (rule inv_consumer_iter[OF Cons.prems(1)])
    have q: "chunk_queue b \<noteq> []"
    proof
      assume e: "chunk_queue b = []"
      with Cons.prems(4) ConsumerStep have "pending b = []" by simp
      from running_has_more[OF Cons.prems(1-3) this] e show False by simp
    qed
    from consumer_iter_takes[OF Cons.prems(1-3) q] show ?thesis
    proof
      assume a: "running ?b \<and> pending ?b = pending b
        \<and> Suc (length (chunk_queue ?b)) = length (chunk_queue b)"
      then have "timely ss (length (pending ?b)) (length (chunk_queue ?b))"
        using Cons.prems(4) ConsumerStep by (cases "length (chunk_queue b)") auto
      from Cons.IH[OF inv' Cons.prems(2) _ this] a ConsumerStep show ?thesis by simp
    next
      assume a: "\<not> running ?b \<and> received ?b = map ChunkEv cs @ [s]"
      then show ?thesis using ConsumerStep stopped_finish_run[of ?b E ss] by simp
    qed
  qed
qed

subsection \<open>The messages of a streaming request\<close>

lemma handle_streaming_request_valid:
  assumes "dict_get kvs ''data'' (JObj []) = JObj d"
    and "truthy (dict_get d ''text'' (JStr []))"
    and "TTSConfig_init (dict_get d ''config'' (JObj [])) = Inr cfg"
    and "initialized h \<or> init_raises W = None"
  shows "sent (handle_streaming_request E W h (JObj kvs))
      = outbox (stream_audio E W (dict_get d ''text'' (JStr [])) cfg
          (dict_get d ''reference_audio'' JNull))"
  using assms
  by (auto simp: handle_streaming_request_def initialize_def split: option.splits)

lemma stream_audio_timely:
  assumes g: "fst (generate (generator_run W (writer_args tx config))) = map ChunkEv cs @ [s]"
    and s: "is_sentinel s"
    and t: "timely (schedule W) (Suc (length cs)) 0"
  shows "outbox (stream_audio E W tx config ra)
           = map (chunk_response E) cs @ [final_response (map ChunkEv cs @ [s])]"
proof -
  let ?b0 = "\<lparr>pending = map ChunkEv cs @ [s], chunk_queue = [], received = [],
              outbox = [], running = True\<rparr>"
  have "received (finish E (run_schedule E (schedule W) ?b0)) = map ChunkEv cs @ [s]"
    by (rule timely_receives_all[OF inv_init s]) (simp_all add: t)
  then have "received (stream_audio E W tx config ra) = map ChunkEv cs @ [s]"
    by (simp add: stream_audio_def g)
  then show ?thesis using s by (simp add: stream_audio_outbox)
qed

lemma sentinels_done: "sentinels acts = [DoneEv] \<Longrightarrow> collect_chunks acts = Inr (sunk acts)"
  by (induction acts rule: sentinels.induct) auto

lemma done_received:
  assumes "r @ DoneEv # rest = map ChunkEv (sunk acts) @ sentinels acts"
  shows "sentinels acts = [DoneEv] \<and> r = map ChunkEv (sunk acts)"
proof (cases "sentinels acts")
  case Nil
  with assms have "map ChunkEv (sunk acts) = r @ DoneEv # rest" by simp
  then have "filter is_sentinel (map ChunkEv (sunk acts)) = filter is_sentinel (r @ DoneEv # rest)"
    by (simp only:)
  then show ?thesis by simp
next
  case (Cons s ss)
  with length_sentinels[of acts] have ss: "sentinels acts = [s]" by simp
  have "is_sentinel s" using sentinels_are_sentinels[of acts] ss by simp
  from assms ss have "r @ DoneEv # rest = map ChunkEv (sunk acts) @ [s]" by simp
  from sentinel_position[OF this] ss show ?thesis by simp
qed

lemma final_response_complete:
  "is_complete (final_response evs) \<Longrightarrow> \<exists>r. evs = r @ [DoneEv]"
proof -
  assume c: "is_complete (final_response evs)"
  then have ne: "evs \<noteq> []" by (auto simp: final_response_def)
  with c have "last evs = DoneEv"
    by (cases "last evs") (auto simp: final_response_def)
  with ne show ?thesis by (metis append_butlast_last_id)
qed

lemma stream_audio_complete:
  assumes "is_complete (last (outbox (stream_audio E W tx config ra)))"
  shows "collect_chunks (generator_run W (writer_args tx config))
           = Inr (sunk (generator_run W (writer_args tx config)))
         \<and> outbox (stream_audio E W tx config ra)
           = map (chunk_response E) (sunk (generator_run W (writer_args tx config)))
             @ [complete_response]"
proof -
  let ?b = "stream_audio E W tx config ra"
  let ?acts = "generator_run W (writer_args tx config)"
  from assms have "is_complete (final_response (received ?b))"
    by (simp add: stream_audio_outbox)
  then obtain r where r: "received ?b = r @ [DoneEv]"
    using final_response_complete by blast
  have "received ?b @ chunk_queue ?b @ pending ?b = map ChunkEv (sunk ?acts) @ sentinels ?acts"
    using stream_audio_inv[of E W tx config ra] by (simp add: bridge_inv_def generate_eq)
  with r have "r @ DoneEv # (chunk_queue ?b @ pending ?b)
      = map ChunkEv (sunk ?acts) @ sentinels ?acts"
    by simp
  from done_received[OF this] have d: "sentinels ?acts = [DoneEv]" "r = map ChunkEv (sunk ?acts)"
    by simp_all
  have "outbox ?b = map (chunk_response E) (sunk ?acts) @ [complete_response]"
    by (simp add: stream_audio_outbox r d)
  with sentinels_done[OF d(1)] show ?thesis by simp
qed

text \<open>
  C2: the messages sent for a streaming request are zero or more \<open>tts_stream_chunk\<close>
  messages followed by exactly one last message, a \<open>tts_stream_complete\<close> or an error
  Envelope, after which nothing is sent. For a request that passes validation: when the
  Generator returns and no wait of the consumer times out, the messages are the chunk
  messages of all chunks produced, in order, and then the completion; when the Generator
  raises an \<^verbatim>\<open>Exception\<close> and no wait times out, they are the chunk messages of the chunks
  produced before, and then the one error Envelope of the generation error; and a
  completion is sent only after a run that returned, with all its chunks sent.
\<close>

theorem stream_messages_sequence:
  assumes "dict_get kvs ''data'' (JObj []) = JObj d"
    and "truthy (dict_get d ''text'' (JStr []))"
    and "TTSConfig_init (dict_get d ''config'' (JObj [])) = Inr cfg"
    and "initialized h \<or> init_raises W = None"
    and "acts = generator_run W (writer_args (dict_get d ''text'' (JStr [])) cfg)"
  shows
    "(\<exists>ms t. sent (handle_streaming_request E W h message) = ms @ [t]
        \<and> list_all is_chunk ms
        \<and> list_all (\<lambda>m. \<not> is_complete m \<and> \<not> is_error m) ms
        \<and> (is_complete t \<or> is_error t)
        \<and> \<not> (is_complete t \<and> is_error t)
        \<and> \<not> is_chunk t)
     \<and> (\<forall>cs. collect_chunks acts = Inr cs \<and> timely (schedule W) (Suc (length cs)) 0 \<longrightarrow>
           sent (handle_streaming_request E W h (JObj kvs))
             = map (chunk_response E) cs @ [complete_response])
     \<and> (\<forall>e. collect_chunks acts = Inl (Exc e)
             \<and> timely (schedule W) (Suc (length (sunk acts))) 0 \<longrightarrow>
           sent (handle_streaming_request E W h (JObj kvs))
             = map (chunk_response E) (sunk acts)
               @ [error_response (''Generation error: '' @ e)])
     \<and> (is_complete (last (sent (handle_streaming_request E W h (JObj kvs)))) \<longrightarrow>
           collect_chunks acts = Inr (sunk acts)
           \<and> sent (handle_streaming_request E W h (JObj kvs))
               = map (chunk_response E) (sunk acts) @ [complete_response])"
proof -
  let ?tx = "dict_get d ''text'' (JStr [])"
  let ?ra = "dict_get d ''reference_audio'' JNull"
  have v: "sent (handle_streaming_request E W h (JObj kvs)) = outbox (stream_audio E W ?tx cfg ?ra)"
    by (rule handle_streaming_request_valid[OF assms(1-4)])
  have a: "acts = generator_run W (writer_args ?tx cfg)" by (rule assms(5))
  have ret: "sent (handle_streaming_request E W h (JObj kvs))
             = map (chunk_response E) cs @ [complete_response]"
    if c: "collect_chunks acts = Inr cs" and t: "timely (schedule W) (Suc (length cs)) 0" for cs
  proof -
    from collect_chunks_Inr[OF c]
    have g: "fst (generate (generator_run W (writer_args ?tx cfg))) = map ChunkEv cs @ [DoneEv]"
      by (simp add: generate_eq a)
    show ?thesis unfolding v by (simp add: stream_audio_timely[OF g _ t])
  qed
  have exc: "sent (handle_streaming_request E W h (JObj kvs))
             = map (chunk_response E) (sunk acts)
               @ [error_response (''Generation error: '' @ e)]"
    if c: "collect_chunks acts = Inl (Exc e)"
      and t: "timely (schedule W) (Suc (length (sunk acts))) 0" for e
  proof -
    from collect_chunks_Exc[OF c]
    have g: "fst (generate (generator_run W (writer_args ?tx cfg)))
        = map ChunkEv (sunk acts) @ [ErrorEv e]"
      by (simp add: generate_eq a)
    show ?thesis unfolding v by (simp add: stream_audio_timely[OF g _ t])
  qed
  have cmp: "collect_chunks acts = Inr (sunk acts)
           \<and> sent (handle_streaming_request E W h (JObj kvs))
               = map (chunk_response E) (sunk acts) @ [complete_response]"
    if "is_complete (last (sent (handle_streaming_request E W h (JObj kvs))))"
    using that stream_audio_complete[of E W ?tx cfg ?ra] unfolding v a by simp
  from stream_shape[of E W h message] ret exc cmp show ?thesis by blast
qed

lemma example_timely: "timely (schedule example_world) (Suc (length [[1 / 4, 0], [1 :: real]])) 0"
  by (simp add: example_world_def)

theorem stream_messages_sequence_witness:
  "sent (handle_streaming_request example_externals example_world fresh_handler
           hola_stream_request)
   = [chunk_response example_externals [1 / 4, 0], chunk_response example_externals [1],
      complete_response]"
proof -
  let ?d = "[(''text'', JStr ''Hola'')]"
  have h1: "dict_get [(''type'', JStr ''tts_stream_request''), (''data'', JObj ?d)]
      ''data'' (JObj []) = JObj ?d"
    by (simp add: dict_get_def)
  have h2: "truthy (dict_get ?d ''text'' (JStr []))"
    by (simp add: dict_get_def)
  have h3: "TTSConfig_init (dict_get ?d ''config'' (JObj [])) = Inr default_config"
    by (simp add: dict_get_def default_config_def)
  have h4: "initialized fresh_handler \<or> init_raises example_world = None"
    by (simp add: example_world_def)
  have h5: "[Sink [1 / 4, 0], Sink [1]]
      = generator_run example_world (writer_args (dict_get ?d ''text'' (JStr [])) default_config)"
    by (simp add: example_world_def)
  note w = stream_messages_sequence [OF h1 h2 h3 h4 h5, of example_externals JNull]
  have c: "collect_chunks [Sink [1 / 4, 0], Sink [1 :: real]] = Inr [[1 / 4, 0], [1]]
      \<and> timely (schedule example_world) (Suc (length [[1 / 4, 0], [1 :: real]])) 0"
    using example_timely by simp
  from w c have "sent (handle_streaming_request example_externals example_world fresh_handler
      (JObj [(''type'', JStr ''tts_stream_request''), (''data'', JObj ?d)]))
    = map (chunk_response example_externals) [[1 / 4, 0], [1]] @ [complete_response]"
    by blast
  then show ?thesis by (simp add: hola_stream_request_def)
qed

text \<open>The same request when the worker is too slow for the first wait: one timeout error.\<close>

lemma example_stream_timeout:
  "sent (handle_streaming_request example_externals (example_world\<lparr>schedule := [ConsumerStep]\<rparr>)
           fresh_handler hola_stream_request)
   = [error_response ''Generation timeout'']"
  by (simp add: handle_streaming_request_def hola_stream_request_def example_world_def
      fresh_handler_def dict_get_def initialize_def stream_audio_def generate_def finish_def
      worker_put_def consumer_iter_def writer_args_def)

subsection \<open>Order of delivery\<close>

lemma filter_is_chunk_map [simp]:
  "filter is_chunk (map (chunk_response E) cs) = map (chunk_response E) cs"
  by (induction cs) auto

lemma stream_audio_fifo:
  "received (stream_audio E W tx config ra) @ chunk_queue (stream_audio E W tx config ra)
     @ pending (stream_audio E W tx config ra)
   = fst (generate (generator_run W (writer_args tx config)))"
  using stream_audio_inv[of E W tx config ra] by (simp add: bridge_inv_def)

lemma stream_audio_chunks:
  "chunks_of (received (stream_audio E W tx config ra))
     @ chunks_of (chunk_queue (stream_audio E W tx config ra))
     @ chunks_of (pending (stream_audio E W tx config ra))
   = sunk (generator_run W (writer_args tx config))"
proof -
  have "chunks_of (received (stream_audio E W tx config ra)
     @ chunk_queue (stream_audio E W tx config ra)
     @ pending (stream_audio E W tx config ra))
    = chunks_of (fst (generate (generator_run W (writer_args tx config))))"
    by (simp only: stream_audio_fifo)
  then show ?thesis
    by (simp add: generate_eq)
qed

lemma stream_audio_filter_chunks:
  "filter is_chunk (outbox (stream_audio E W tx config ra))
     = map (chunk_response E) (chunks_of (received (stream_audio E W tx config ra)))"
  using terminal_not_chunk[OF final_response_kind]
  by (simp add: stream_audio_outbox)

lemma handle_client_append:
  "handle_client E h (xs @ ys) =
     (if fatal (handle_client E h xs) \<noteq> None then handle_client E h xs
      else \<lparr> sent = sent (handle_client E h xs)
                 @ sent (handle_client E (handler (handle_client E h xs)) ys),
             tasks = tasks (handle_client E h xs)
                 @ tasks (handle_client E (handler (handle_client E h xs)) ys),
             handler = handler (handle_client E (handler (handle_client E h xs)) ys),
             fatal = fatal (handle_client E (handler (handle_client E h xs)) ys) \<rparr>)"
  by (induction xs arbitrary: h) (auto simp: Let_def)

text \<open>
  C4: for every streaming request that passes validation, under every interleaving, what
  the consumer has received, followed by what is queued and by what the worker has still
  to put, is the sequence of the worker's puts (first in, first out); the chunk messages
  sent on the connection carry, in order, exactly the chunks received, which are the
  first chunks the Generator produced, in production order; and the messages of a
  connection are those of its requests one request after the other, so no message of a
  later request comes before a message of an earlier one (after an exception outside
  class \<^verbatim>\<open>Exception\<close> has ended the loop, no later request is read at all).
\<close>

theorem chunks_sent_in_push_order:
  assumes "dict_get kvs ''data'' (JObj []) = JObj d"
    and "truthy (dict_get d ''text'' (JStr []))"
    and "TTSConfig_init (dict_get d ''config'' (JObj [])) = Inr cfg"
    and "initialized h \<or> init_raises W = None"
  shows
    "(let b = stream_audio E W (dict_get d ''text'' (JStr [])) cfg
                (dict_get d ''reference_audio'' JNull);
          acts = generator_run W (writer_args (dict_get d ''text'' (JStr [])) cfg)
      in sent (handle_streaming_request E W h (JObj kvs)) = outbox b
         \<and> received b @ chunk_queue b @ pending b = fst (generate acts)
         \<and> filter is_chunk (outbox b) = map (chunk_response E) (chunks_of (received b))
         \<and> chunks_of (received b) @ chunks_of (chunk_queue b) @ chunks_of (pending b)
             = sunk acts)
     \<and> sent (handle_client E h (xs @ ys))
         = sent (handle_client E h xs)
           @ (if fatal (handle_client E h xs) = None
              then sent (handle_client E (handler (handle_client E h xs)) ys) else [])"
  using handle_streaming_request_valid[OF assms]
  by (simp add: Let_def stream_audio_fifo stream_audio_filter_chunks stream_audio_chunks
      handle_client_append)

theorem chunks_sent_in_push_order_witness:
  "filter is_chunk (sent (handle_streaming_request example_externals example_world
       fresh_handler hola_stream_request))
   = [chunk_response example_externals [1 / 4, 0], chunk_response example_externals [1]]
   \<and> sunk (generator_run example_world (writer_args (JStr ''Hola'') default_config))
       = [[1 / 4, 0], [1]]"
proof -
  have h1: "dict_get [(''type'', JStr ''tts_stream_request''),
             (''data'', JObj [(''text'', JStr ''Hola'')])] ''data'' (JObj [])
     = JObj [(''text'', JStr ''Hola'')]"
    by (simp add: dict_get_def)
  have h2: "truthy (dict_get [(''text'', JStr ''Hola'')] ''text'' (JStr []))"
    by (simp add: dict_get_def)
  have h3: "TTSConfig_init (dict_get [(''text'', JStr ''Hola'')] ''config'' (JObj []))
     = Inr default_config"
    by (simp add: dict_get_def default_config_def)
  have h4: "initialized fresh_handler \<or> init_raises example_world = None"
    by (simp add: example_world_def)
  show ?thesis
    using chunks_sent_in_push_order [OF h1 h2 h3 h4, of example_externals "[]" "[]"]
    by (simp add: Let_def hola_stream_request_def dict_get_def example_world_def
        stream_audio_def generate_def finish_def worker_put_def consumer_iter_def
        writer_args_def)
qed

subsection \<open>Requests without text\<close>

lemma no_text_tts:
  "dict_get kvs ''data'' (JObj []) = JObj d \<Longrightarrow> dict_get d ''text'' (JStr []) = JStr []
   \<Longrightarrow> handle_tts_request E W h (JObj kvs) = send_error h [] ''No text provided''"
  by (simp add: handle_tts_request_def)

lemma no_text_stream:
  "dict_get kvs ''data'' (JObj []) = JObj d \<Longrightarrow> dict_get d ''text'' (JStr []) = JStr []
   \<Longrightarrow> handle_streaming_request E W h (JObj kvs) = send_error h [] ''No text provided''"
  by (simp add: handle_streaming_request_def)

lemma handle_client_Cons_error:
  "handle_message E h x = send_error h [] m \<Longrightarrow>
   handle_client E h (x # rest) =
     \<lparr> sent = error_response m # sent (handle_client E h rest),
       tasks = tasks (handle_client E h rest),
       handler = handler (handle_client E h rest),
       fatal = fatal (handle_client E h rest) \<rparr>"
  by (simp add: Let_def send_error_def)

text \<open>
  C6: a \<open>tts_request\<close> or \<open>tts_stream_request\<close> whose data has no text field or an empty
  one is answered with exactly one error Envelope with message "No text provided"; no
  model is constructed and no generation task is started, the handler is unchanged, and
  the following messages of the connection are handled as if on a fresh loop iteration.
\<close>

theorem missing_text_rejected:
  assumes "map_of kvs ''type'' = Some (JStr ''tts_request'')
           \<or> map_of kvs ''type'' = Some (JStr ''tts_stream_request'')"
    and "map_of kvs ''data'' = Some (JObj d)"
    and "map_of d ''text'' = None \<or> map_of d ''text'' = Some (JStr [])"
  shows "handle_message E h (Message (JObj kvs), W)
           = \<lparr> sent = [error_response ''No text provided''], tasks = [], handler = h,
               fatal = None \<rparr>
         \<and> handle_client E h ((Message (JObj kvs), W) # rest)
           = \<lparr> sent = error_response ''No text provided'' # sent (handle_client E h rest),
               tasks = tasks (handle_client E h rest),
               handler = handler (handle_client E h rest),
               fatal = fatal (handle_client E h rest) \<rparr>"
proof -
  have d: "dict_get kvs ''data'' (JObj []) = JObj d" using assms(2) by (simp add: dict_get_def)
  have t: "dict_get d ''text'' (JStr []) = JStr []" using assms(3) by (auto simp: dict_get_def)
  have m: "handle_message E h (Message (JObj kvs), W) = send_error h [] ''No text provided''"
    using assms(1) no_text_tts[OF d t] no_text_stream[OF d t]
    by (auto simp: handle_message_def dict_get_def)
  show ?thesis using m handle_client_Cons_error[OF m] by (simp add: send_error_def)
qed

theorem missing_text_rejected_witness:
  "handle_message example_externals fresh_handler
     (Message (JObj [(''type'', JStr ''tts_stream_request''),
                     (''data'', JObj [(''text'', JStr [])])]), example_world)
     = \<lparr> sent = [error_response ''No text provided''], tasks = [], handler = fresh_handler,
         fatal = None \<rparr>
   \<and> sent (handle_client example_externals fresh_handler
        [(Message (JObj [(''type'', JStr ''tts_stream_request''),
                         (''data'', JObj [(''text'', JStr [])])]), example_world),
         (Message ping_request, example_world)])
     = [error_response ''No text provided'', pong_response fresh_handler]"
proof -
  have h1: "map_of [(''type'', JStr ''tts_stream_request''),
                    (''data'', JObj [(''text'', JStr [])])] ''type''
              = Some (JStr ''tts_request'')
            \<or> map_of [(''type'', JStr ''tts_stream_request''),
                       (''data'', JObj [(''text'', JStr [])])] ''type''
              = Some (JStr ''tts_stream_request'')"
    by simp
  have h2: "map_of [(''type'', JStr ''tts_stream_request''),
                    (''data'', JObj [(''text'', JStr [])])] ''data''
              = Some (JObj [(''text'', JStr [])])"
    by simp
  have h3: "map_of [(''text'', JStr [])] ''text'' = None
            \<or> map_of [(''text'', JStr [])] ''text'' = Some (JStr [])"
    by simp
  show ?thesis
    using missing_text_rejected [OF h1 h2 h3, of example_externals fresh_handler
        example_world "[(Message ping_request, example_world)]"]
    by (simp add: handle_message_def ping_request_def dict_get_def)
qed

subsection \<open>Malformed and unknown messages\<close>

lemma py_str_JStr: "py_str E (JStr s) = s"
  by (simp add: py_str_def)

text \<open>
  C7, as stated, fails: the binary frame of the single byte 0x80 is not valid JSON, and
  it is answered with the message of the \<^verbatim>\<open>UnicodeDecodeError\<close> that \<^verbatim>\<open>json.loads\<close> raises
  (lines 310-312), not with "Invalid JSON format".
\<close>

theorem undecodable_frame_counterexample:
  "not_valid_json (Undecodable utf8_error)
   \<and> handle_message example_externals fresh_handler (Undecodable utf8_error, example_world)
       = \<lparr> sent = [error_response utf8_error], tasks = [], handler = fresh_handler,
           fatal = None \<rparr>
   \<and> error_response utf8_error \<noteq> error_response ''Invalid JSON format''"
  by (simp add: handle_message_def send_error_def error_response_def utf8_error_def)

text \<open>
  C7, amended: an inbound text message that is not a JSON document (\<^verbatim>\<open>json.loads\<close> raises
  \<^verbatim>\<open>JSONDecodeError\<close>) is answered with one error Envelope with message "Invalid JSON
  format"; an inbound frame on which \<^verbatim>\<open>json.loads\<close> raises another exception (a binary
  frame that is not UTF-8, a document nested too deeply) is answered with one error
  Envelope with that exception's message; a JSON object whose type is none of the
  handled types is answered with one error Envelope naming the type. In all these cases
  no model is constructed and no task is started, the handler is unchanged, and a
  following ping on the same connection is answered.
\<close>

theorem bad_messages_answered:
  assumes "dict_get kvs ''type'' (JStr []) = ty"
    and "ty \<noteq> JStr ''tts_request''" and "ty \<noteq> JStr ''tts_stream_request''"
    and "ty \<noteq> JStr ''ping''"
  shows "handle_message E h (InvalidJson, W)
           = \<lparr> sent = [error_response ''Invalid JSON format''], tasks = [], handler = h,
               fatal = None \<rparr>
         \<and> handle_message E h (Undecodable e, W)
           = \<lparr> sent = [error_response e], tasks = [], handler = h, fatal = None \<rparr>
         \<and> handle_message E h (LoadsError e, W)
           = \<lparr> sent = [error_response e], tasks = [], handler = h, fatal = None \<rparr>
         \<and> handle_message E h (Message (JObj kvs), W)
           = \<lparr> sent = [error_response (''Unknown message type: '' @ py_str E ty)],
               tasks = [], handler = h, fatal = None \<rparr>
         \<and> py_str E (JStr s) = s
         \<and> sent (handle_client E h
              ((InvalidJson, W) # (Undecodable e, W) # (Message (JObj kvs), W)
               # (Message ping_request, W') # rest))
           = error_response ''Invalid JSON format'' # error_response e
             # error_response (''Unknown message type: '' @ py_str E ty)
             # pong_response h # sent (handle_client E h rest)
         \<and> tasks (handle_client E h
              ((InvalidJson, W) # (Undecodable e, W) # (Message (JObj kvs), W)
               # (Message ping_request, W') # rest))
           = tasks (handle_client E h rest)"
proof -
  have a: "handle_message E h (InvalidJson, W) = send_error h [] ''Invalid JSON format''"
    by (simp add: handle_message_def)
  have u: "handle_message E h (Undecodable e, W) = send_error h [] e"
    by (simp add: handle_message_def)
  have l: "handle_message E h (LoadsError e, W) = send_error h [] e"
    by (simp add: handle_message_def)
  have b: "handle_message E h (Message (JObj kvs), W)
      = send_error h [] (''Unknown message type: '' @ py_str E ty)"
    using assms by (simp add: handle_message_def)
  have c: "handle_message E h (Message ping_request, W')
      = \<lparr> sent = [pong_response h], tasks = [], handler = h, fatal = None \<rparr>"
    by (simp add: handle_message_def ping_request_def dict_get_def)
  show ?thesis
    using a u l b c by (simp add: Let_def send_error_def py_str_JStr)
qed

theorem bad_messages_answered_witness:
  "sent (handle_client example_externals fresh_handler
      [(InvalidJson, example_world),
       (Undecodable utf8_error, example_world),
       (Message (JObj [(''type'', JStr ''bogus'')]), example_world),
       (Message ping_request, example_world)])
   = [error_response ''Invalid JSON format'',
      error_response utf8_error,
      error_response ''Unknown message type: bogus'',
      pong_response fresh_handler]"
proof -
  have h1: "dict_get [(''type'', JStr ''bogus'')] ''type'' (JStr []) = JStr ''bogus''"
    by (simp add: dict_get_def)
  have h2: "JStr ''bogus'' \<noteq> JStr ''tts_request''"
    and h3: "JStr ''bogus'' \<noteq> JStr ''tts_stream_request''"
    and h4: "JStr ''bogus'' \<noteq> JStr ''ping''"
    by simp_all
  note w = bad_messages_answered [OF h1 h2 h3 h4, of example_externals fresh_handler
      example_world utf8_error "''bogus''" example_world "[]"]
  have e: "sent (handle_client example_externals fresh_handler
      [(InvalidJson, example_world),
       (Undecodable utf8_error, example_world),
       (Message (JObj [(''type'', JStr ''bogus'')]), example_world),
       (Message ping_request, example_world)])
    = error_response ''Invalid JSON format'' # error_response utf8_error
      # error_response (''Unknown message type: '' @ py_str example_externals (JStr ''bogus''))
      # pong_response fresh_handler # sent (handle_client example_externals fresh_handler [])"
    by (rule w [THEN conjunct2, THEN conjunct2, THEN conjunct2, THEN conjunct2,
          THEN conjunct2, THEN conjunct1])
  have p: "py_str example_externals (JStr ''bogus'') = ''bogus''"
    by (simp add: py_str_def)
  have n: "sent (handle_client example_externals fresh_handler []) = []"
    by simp
  show ?thesis unfolding e p n by simp
qed

subsection \<open>Ping and the initialization flag\<close>

lemma pong_flags_append [simp]: "pong_flags (xs @ ys) = pong_flags xs @ pong_flags ys"
  by (induction xs) (auto split: option.splits json.splits)

lemma pong_flags_not_pong [simp]:
  "is_chunk m \<or> is_complete m \<or> is_error m \<or> is_success m \<Longrightarrow> pong_flags (m # ms) = pong_flags ms"
  by (auto simp: is_chunk_def is_complete_def is_error_def is_success_def)

declare pong_flags.simps(2) [simp del]

lemma pong_flags_chunks [simp]: "pong_flags (map (chunk_response E) cs) = []"
  by (induction cs) auto

lemma pong_flags_pong [simp]:
  "pong_flags (pong_response h # ms) = initialized h # pong_flags ms"
  by (simp add: pong_flags.simps(2) pong_response_def msg_type_def msg_data_def)

lemma is_success_tts_response [simp]: "is_success (tts_response cfg audio)"
  by (simp add: is_success_def tts_response_def msg_type_def msg_data_def)

lemma pong_flags_stream [simp]: "pong_flags (outbox (stream_audio E W tx cfg ra)) = []"
  using final_response_kind[of "received (stream_audio E W tx cfg ra)"]
  by (auto simp: stream_audio_outbox)

lemma tts_request_pongs [simp]: "pong_flags (sent (handle_tts_request E W h m)) = []"
  by (auto simp: handle_tts_request_def send_error_def split: sum.splits prod.splits raised.splits)

lemma streaming_request_pongs [simp]:
  "pong_flags (sent (handle_streaming_request E W h m)) = []"
  by (auto simp: handle_streaming_request_def send_error_def split: sum.splits prod.splits raised.splits)



















lemma example_ping_run:
  "pong_flags (sent (handle_client example_externals fresh_handler
      [(Message ping_request, example_world),
       (Message hola_stream_request, example_world),
       (Message ping_request, example_world)])) = [False, True]"
  by (simp add: Let_def handle_message_def ping_request_def hola_stream_request_def
      dict_get_def handle_streaming_request_def initialize_def fresh_handler_def
      example_world_def)



subsection \<open>Full requests\<close>

text \<open>
  C9: a \<open>tts_request\<close> with text whose Generator run returns without having produced a
  chunk is answered with exactly one message, the error Envelope (type \<open>tts_response\<close>,
  status "error", empty audio) with message "No audio generated", and not with a success
  response.
\<close>

theorem no_audio_generated_error:
  assumes "dict_get kvs ''data'' (JObj []) = JObj d"
    and "truthy (dict_get d ''text'' (JStr []))"
    and "TTSConfig_init (dict_get d ''config'' (JObj [])) = Inr cfg"
    and "initialized h \<or> init_raises W = None"
    and "collect_chunks (generator_run W (writer_args (dict_get d ''text'' (JStr [])) cfg))
           = Inr []"
  shows "sent (handle_tts_request E W h (JObj kvs)) = [error_response ''No audio generated'']
         \<and> is_error (error_response ''No audio generated'')
         \<and> \<not> is_success (error_response ''No audio generated'')
         \<and> msg_data (error_response ''No audio generated'') ''audio'' = Some (JStr [])
         \<and> msg_data (error_response ''No audio generated'') ''message''
             = Some (JStr ''No audio generated'')"
  using assms
  by (auto simp: handle_tts_request_def initialize_def generate_audio_def send_error_def
      is_success_def is_error_def msg_type_def msg_data_def error_response_def
      split: option.splits)

theorem no_audio_generated_error_witness:
  "sent (handle_tts_request example_externals (example_world\<lparr>generator_run := (\<lambda>a. [])\<rparr>)
           fresh_handler hola_request)
   = [error_response ''No audio generated'']"
proof -
  let ?W = "example_world\<lparr>generator_run := (\<lambda>a. [])\<rparr>"
  let ?d = "[(''text'', JStr ''Hola''), (''config'', JObj [])]"
  let ?cfg = "\<lparr> temperature = TEMPERATURE, max_tokens = MAX_TOKENS, top_p = TOP_P,
          chunk_size = CHUNK_SIZE, lookback_frames = LOOKBACK_FRAMES,
          language = JStr ''spanish'', emotion = JStr ''neutral'', speed = JFloat 1,
          voice_id = JStr ''default'' \<rparr>"
  have h1: "dict_get [(''type'', JStr ''tts_request''), (''data'', JObj ?d)] ''data'' (JObj [])
      = JObj ?d"
    by (simp add: dict_get_def)
  have h2: "truthy (dict_get ?d ''text'' (JStr []))"
    by (simp add: dict_get_def)
  have h3: "TTSConfig_init (dict_get ?d ''config'' (JObj [])) = Inr ?cfg"
    by (simp add: dict_get_def)
  have h4: "initialized fresh_handler \<or> init_raises ?W = None"
    by (simp add: example_world_def)
  have h5: "collect_chunks (generator_run ?W (writer_args (dict_get ?d ''text'' (JStr [])) ?cfg))
      = Inr []"
    by simp
  show ?thesis
    unfolding hola_request_def
    by (rule no_audio_generated_error [OF h1 h2 h3 h4 h5, THEN conjunct1])
qed

lemma dict_get_cong:
  "map_of d1 k = map_of d2 k \<Longrightarrow> dict_get d1 k v = dict_get d2 k v"
  by (simp add: dict_get_def)

text \<open>
  C10: two \<open>tts_request\<close> messages whose data agree on every key other than
  \<open>reference_audio\<close> have the same outcome: the same messages sent, the same generation
  task with the same arguments, the same handler afterwards.
\<close>

theorem reference_audio_ignored:
  assumes "dict_get kvs1 ''data'' (JObj []) = JObj d1"
    and "dict_get kvs2 ''data'' (JObj []) = JObj d2"
    and "\<forall>k. k \<noteq> ''reference_audio'' \<longrightarrow> map_of d1 k = map_of d2 k"
  shows "handle_tts_request E W h (JObj kvs1) = handle_tts_request E W h (JObj kvs2)"
proof -
  have t: "dict_get d1 ''text'' v = dict_get d2 ''text'' v" for v
    using assms(3) by (intro dict_get_cong) simp
  have c: "dict_get d1 ''config'' v = dict_get d2 ''config'' v" for v
    using assms(3) by (intro dict_get_cong) simp
  have g: "generate_audio E W tx cfg ra = generate_audio E W tx cfg JNull" for tx cfg ra
    by (simp add: generate_audio_def)
  show ?thesis
    using assms(1,2)
    by (simp add: handle_tts_request_def t c g [of _ _ "dict_get d1 ''reference_audio'' JNull"]
        g [of _ _ "dict_get d2 ''reference_audio'' JNull"]
        split: sum.splits prod.splits raised.splits)
qed

theorem reference_audio_ignored_witness:
  "handle_tts_request example_externals example_world fresh_handler
     (JObj [(''type'', JStr ''tts_request''),
            (''data'', JObj [(''text'', JStr ''Hola''), (''reference_audio'', JStr ''QUJD'')])])
   = handle_tts_request example_externals example_world fresh_handler
     (JObj [(''type'', JStr ''tts_request''),
            (''data'', JObj [(''text'', JStr ''Hola'')])])"
proof -
  have h1: "dict_get [(''type'', JStr ''tts_request''),
            (''data'', JObj [(''text'', JStr ''Hola''), (''reference_audio'', JStr ''QUJD'')])]
            ''data'' (JObj [])
      = JObj [(''text'', JStr ''Hola''), (''reference_audio'', JStr ''QUJD'')]"
    by (simp add: dict_get_def)
  have h2: "dict_get [(''type'', JStr ''tts_request''),
            (''data'', JObj [(''text'', JStr ''Hola'')])] ''data'' (JObj [])
      = JObj [(''text'', JStr ''Hola'')]"
    by (simp add: dict_get_def)
  have h3: "\<forall>k. k \<noteq> ''reference_audio'' \<longrightarrow>
      map_of [(''text'', JStr ''Hola''), (''reference_audio'', JStr ''QUJD'')] k
      = map_of [(''text'', JStr ''Hola'')] k"
    by simp
  show ?thesis by (rule reference_audio_ignored [OF h1 h2 h3])
qed

subsection \<open>The duration reported by a full response\<close>

lemma tts_response_duration:
  "reported_duration (tts_response cfg audio_data)
     = Some (JFloat (real (length audio_data) / real (SAMPLE_RATE * 2)))"
  by (simp add: reported_duration_def tts_response_def msg_data_def)

lemma length_toContainer: "length (toContainer p r xs) = 44 + 2 * length xs"
  by (simp add: toContainer_def Let_def ascii_def le16_def le32_def length_pcm16)

lemma length_decode_pcm16: "length (decode_pcm16 (pcm16 p xs)) = length xs"
  by (simp add: decode_pcm16_eq)

lemma container_samples_count:
  "length (container_samples (toContainer p r xs)) = length xs"
  by (simp add: container_samples_def toContainer_def Let_def ascii_def le16_def le32_def
      length_decode_pcm16)

lemma container_duration_excess:
  "reported_duration (tts_response cfg (toContainer p r xs))
     = Some (JFloat (real (length (container_samples (toContainer p r xs))) / real SAMPLE_RATE
                     + 22 / real SAMPLE_RATE))"
  by (simp add: tts_response_duration length_toContainer container_samples_count
      SAMPLE_RATE_def field_simps)

lemma example_full_sent:
  "sent (handle_tts_request example_externals example_world fresh_handler hola_request)
   = [tts_response default_config (toContainer 24 SAMPLE_RATE [1 / 4, 0, 1])]"
  by (simp add: handle_tts_request_def hola_request_def dict_get_def initialize_def
      fresh_handler_def example_world_def example_externals_def generate_audio_def
      default_config_def)

text \<open>
  C5 does not hold of the code. The request "Hola", for which the Generator produces the
  chunks \<open>[0.25, 0]\<close> and \<open>[1]\<close>, gets exactly one success response; with the 16-bit
  container its audio holds 3 samples, which last 3 / 22050 = 6 / 44100 seconds, but
  the reported duration is 50 / 44100: line 90 divides the length of the whole file,
  the 44 bytes of the header included, by two bytes a sample.
\<close>

theorem full_response_duration_counts_header:
  "sent (handle_tts_request example_externals example_world fresh_handler hola_request)
     = [tts_response default_config (toContainer 24 SAMPLE_RATE [1 / 4, 0, 1])]
   \<and> is_success (tts_response default_config (toContainer 24 SAMPLE_RATE [1 / 4, 0, 1]))
   \<and> reported_duration (tts_response default_config (toContainer 24 SAMPLE_RATE [1 / 4, 0, 1]))
       = Some (JFloat (50 / 44100))
   \<and> container_samples (toContainer 24 SAMPLE_RATE [1 / 4, 0, 1]) = [8191, 0, 32767]
   \<and> real (length (container_samples (toContainer 24 SAMPLE_RATE [1 / 4, 0, 1])))
        / real SAMPLE_RATE = 6 / 44100
   \<and> (50 / 44100 :: real) \<noteq> 6 / 44100"
proof -
  have "drop 44 (toContainer 24 SAMPLE_RATE [1 / 4, 0, 1]) = pcm16 24 [1 / 4, 0, 1]"
    by (simp add: toContainer_def Let_def ascii_def le16_def le32_def)
  then have d: "container_samples (toContainer 24 SAMPLE_RATE [1 / 4, 0, 1]) = [8191, 0, 32767]"
    by (simp add: container_samples_def decode_pcm16_eq float_eval trunc_toward_zero_def
        int16_value_def)
  have l: "real (length (container_samples (toContainer 24 SAMPLE_RATE [1 / 4, 0, 1])))
        / real SAMPLE_RATE = 6 / 44100"
    unfolding d by (simp add: SAMPLE_RATE_def)
  have u: "reported_duration (tts_response default_config (toContainer 24 SAMPLE_RATE [1 / 4, 0, 1]))
       = Some (JFloat (50 / 44100))"
    by (simp add: tts_response_duration length_toContainer SAMPLE_RATE_def)
  have n: "(50 / 44100 :: real) \<noteq> 6 / 44100" by simp
  from example_full_sent is_success_tts_response u d l n show ?thesis by blast
qed


end
